theory Spec2Isabelle
  imports Complex_Main "HOL-Library.Multiset"
begin

section \<open>JavaScript values used by the dashboard\<close>

text \<open>
  A JavaScript \<open>number\<close>. Finite values are modelled as reals (rounding of doubles is not
  modelled); the two infinities and NaN are kept, since \<open>parseFloat\<close> produces them and the
  sort comparator subtracts numbers.
\<close>

datatype number = Fin real | PosInf | NegInf | NaN

fun num_sub :: "number \<Rightarrow> number \<Rightarrow> number" where
  "num_sub NaN _ = NaN"
| "num_sub _ NaN = NaN"
| "num_sub (Fin a) (Fin b) = Fin (a - b)"
| "num_sub (Fin a) PosInf = NegInf"
| "num_sub (Fin a) NegInf = PosInf"
| "num_sub PosInf PosInf = NaN"
| "num_sub PosInf _ = PosInf"
| "num_sub NegInf NegInf = NaN"
| "num_sub NegInf _ = NegInf"

fun num_add :: "number \<Rightarrow> number \<Rightarrow> number" where
  "num_add NaN _ = NaN"
| "num_add _ NaN = NaN"
| "num_add (Fin a) (Fin b) = Fin (a + b)"
| "num_add (Fin a) PosInf = PosInf"
| "num_add (Fin a) NegInf = NegInf"
| "num_add PosInf NegInf = NaN"
| "num_add PosInf _ = PosInf"
| "num_add NegInf PosInf = NaN"
| "num_add NegInf _ = NegInf"

fun num_mul :: "number \<Rightarrow> number \<Rightarrow> number" where
  "num_mul NaN _ = NaN"
| "num_mul _ NaN = NaN"
| "num_mul (Fin a) (Fin b) = Fin (a * b)"
| "num_mul (Fin a) PosInf = (if a = 0 then NaN else if 0 < a then PosInf else NegInf)"
| "num_mul (Fin a) NegInf = (if a = 0 then NaN else if 0 < a then NegInf else PosInf)"
| "num_mul PosInf (Fin b) = (if b = 0 then NaN else if 0 < b then PosInf else NegInf)"
| "num_mul NegInf (Fin b) = (if b = 0 then NaN else if 0 < b then NegInf else PosInf)"
| "num_mul PosInf PosInf = PosInf"
| "num_mul PosInf NegInf = NegInf"
| "num_mul NegInf PosInf = NegInf"
| "num_mul NegInf NegInf = PosInf"

subsection \<open>Strings\<close>

definition upper_letters :: string where
  "upper_letters = ''ABCDEFGHIJKLMNOPQRSTUVWXYZ''"

definition lower_letters :: string where
  "lower_letters = ''abcdefghijklmnopqrstuvwxyz''"

definition toLowerCase_char :: "char \<Rightarrow> char" where
  "toLowerCase_char c =
     (case map_of (zip upper_letters lower_letters) c of Some d \<Rightarrow> d | None \<Rightarrow> c)"

definition toUpperCase_char :: "char \<Rightarrow> char" where
  "toUpperCase_char c =
     (case map_of (zip lower_letters upper_letters) c of Some d \<Rightarrow> d | None \<Rightarrow> c)"

text \<open>\<open>String.prototype.toLowerCase\<close> and \<open>toUpperCase\<close>, on the ASCII range of \<open>char\<close>.\<close>

definition toLowerCase :: "string \<Rightarrow> string" where
  "toLowerCase s = map toLowerCase_char s"

definition toUpperCase :: "string \<Rightarrow> string" where
  "toUpperCase s = map toUpperCase_char s"

fun startsWith :: "string \<Rightarrow> string \<Rightarrow> bool" where
  "startsWith s [] = True"
| "startsWith [] (c # t) = False"
| "startsWith (d # s) (c # t) = (d = c \<and> startsWith s t)"

text \<open>\<open>s.includes(t)\<close>: \<open>t\<close> occurs in \<open>s\<close> as a contiguous block.\<close>

fun includes_str :: "string \<Rightarrow> string \<Rightarrow> bool" where
  "includes_str [] t = (t = [])"
| "includes_str (c # s) t = (startsWith (c # s) t \<or> includes_str s t)"

definition padStart :: "string \<Rightarrow> nat \<Rightarrow> char \<Rightarrow> string" where
  "padStart s n c = replicate (n - length s) c @ s"

definition digit_char :: "nat \<Rightarrow> char" where
  "digit_char d = ''0123456789'' ! d"

text \<open>\<open>String(n)\<close> for a non-negative integer: its decimal digits.\<close>

fun String_nat :: "nat \<Rightarrow> string" where
  "String_nat n = (if n < 10 then [digit_char n] else String_nat (n div 10) @ [digit_char (n mod 10)])"

declare String_nat.simps [simp del]

subsection \<open>parseFloat\<close>

definition is_digit :: "char \<Rightarrow> bool" where
  "is_digit c = (let n = (of_char c :: nat) in 48 \<le> n \<and> n \<le> 57)"

definition is_space :: "char \<Rightarrow> bool" where
  "is_space c = (let n = (of_char c :: nat) in n = 32 \<or> (9 \<le> n \<and> n \<le> 13))"

definition digit_val :: "char \<Rightarrow> nat" where
  "digit_val c = of_char c - 48"

definition digits_val :: "string \<Rightarrow> nat" where
  "digits_val ds = foldl (\<lambda>acc c. 10 * acc + digit_val c) 0 ds"

text \<open>
  The exponent part \<open>e[+-]digits\<close> of a decimal literal, when it is there: the power of
  ten as an integer. An \<open>e\<close> that no digit follows is not part of the literal.
\<close>

definition exponent_part :: "string \<Rightarrow> int" where
  "exponent_part s =
     (case s of
        [] \<Rightarrow> 0
      | c # r \<Rightarrow>
          if c = CHR ''e'' \<or> c = CHR ''E'' then
            (case r of
               [] \<Rightarrow> 0
             | d # r' \<Rightarrow>
                 if d = CHR ''-'' then
                   (if takeWhile is_digit r' = [] then 0 else - int (digits_val (takeWhile is_digit r')))
                 else if d = CHR ''+'' then int (digits_val (takeWhile is_digit r'))
                 else int (digits_val (takeWhile is_digit r)))
          else 0)"

definition scale10 :: "real \<Rightarrow> int \<Rightarrow> real" where
  "scale10 x e = (if 0 \<le> e then x * 10 ^ nat e else x / 10 ^ nat (- e))"

text \<open>
  The unsigned part of \<open>parseFloat\<close>: \<open>Infinity\<close>, or the longest prefix that is a decimal
  literal (digits, an optional fraction, an optional exponent); NaN when there is none.
\<close>

definition parse_unsigned :: "string \<Rightarrow> number" where
  "parse_unsigned s =
     (if startsWith s ''Infinity'' then PosInf
      else
        let ip = takeWhile is_digit s;
            r1 = dropWhile is_digit s;
            fp = (case r1 of [] \<Rightarrow> [] | c # r \<Rightarrow> if c = CHR ''.'' then takeWhile is_digit r else []);
            r2 = (case r1 of [] \<Rightarrow> [] | c # r \<Rightarrow> if c = CHR ''.'' then dropWhile is_digit r else r1)
        in if ip = [] \<and> fp = [] then NaN
           else Fin (scale10 (real (digits_val ip) + real (digits_val fp) / 10 ^ length fp)
                             (exponent_part r2)))"

definition num_neg :: "number \<Rightarrow> number" where
  "num_neg v = (case v of Fin r \<Rightarrow> Fin (- r) | PosInf \<Rightarrow> NegInf | NegInf \<Rightarrow> PosInf | NaN \<Rightarrow> NaN)"

text \<open>\<open>parseFloat(s)\<close> on a string: leading white space is skipped, then an optional sign.\<close>

definition parseFloat :: "string \<Rightarrow> number" where
  "parseFloat s =
     (case dropWhile is_space s of
        [] \<Rightarrow> NaN
      | c # r \<Rightarrow>
          if c = CHR ''-'' then num_neg (parse_unsigned r)
          else if c = CHR ''+'' then parse_unsigned r
          else parse_unsigned (c # r))"

section \<open>The data model\<close>

datatype RiskLevel = HIGH | MEDIUM | LOW

datatype Status = FLAGGED | CLEARED | PENDING

text \<open>The string a risk level is at run time (the TypeScript type is a union of literals).\<close>

fun risk_string :: "RiskLevel \<Rightarrow> string" where
  "risk_string HIGH = ''HIGH''"
| "risk_string MEDIUM = ''MEDIUM''"
| "risk_string LOW = ''LOW''"

fun status_string :: "Status \<Rightarrow> string" where
  "status_string FLAGGED = ''FLAGGED''"
| "status_string CLEARED = ''CLEARED''"
| "status_string PENDING = ''PENDING''"

text \<open>\<open>interface Transaction\<close> of SuspiciousTransactionsTable.tsx; \<open>tid\<close> is its \<open>id\<close>.\<close>

record Transaction =
  tid :: string
  amount :: number
  from_account :: string
  to_account :: string
  timestamp :: string
  risk_score :: number
  risk_level :: RiskLevel
  reason_codes :: "string list"
  status :: Status

text \<open>\<open>interface SimulationResult\<close> of TransactionSimulator.tsx.\<close>

record SimulationResult =
  sim_risk_score :: number
  sim_risk_level :: RiskLevel
  risk_factors :: "string list"
  explanation :: string

text \<open>\<open>interface Node\<close> and \<open>interface Edge\<close> of the graph view.\<close>

record Node =
  node_id :: string
  node_label :: string
  node_risk_level :: RiskLevel
  account_type :: string
  total_volume :: number

record Edge =
  edge_from :: string
  edge_to :: string
  edge_amount :: number
  suspicious :: bool

text \<open>
  A row handed over by the upload component: an object whose properties are the CSV
  header names, each holding a string. A property that is absent reads as \<open>undefined\<close>.
\<close>

type_synonym Row = "string \<rightharpoonup> string"

text \<open>
  What the host supplies and the source only calls: the values \<open>Math.random()\<close> returns
  (numbers from 0 up to, not including, 1), in the order of the calls;
  \<open>Number.prototype.toString(36)\<close>; the instants
  \<open>new Date().toISOString()\<close> returns, in the order of the calls; and
  \<open>String.prototype.localeCompare\<close>, the collation of the host's locale.
\<close>

record Host =
  random :: "nat \<Rightarrow> real"
  toString36 :: "real \<Rightarrow> string"
  toISOString :: "nat \<Rightarrow> string"
  localeCompare :: "string \<Rightarrow> string \<Rightarrow> int"

text \<open>How many random numbers have been drawn and how often the clock has been read.\<close>

record World =
  draws :: nat
  clock_reads :: nat

definition Math_random :: "Host \<Rightarrow> World \<Rightarrow> real \<times> World" where
  "Math_random h w = (random h (draws w), w\<lparr>draws := Suc (draws w)\<rparr>)"

definition Date_now_iso :: "Host \<Rightarrow> World \<Rightarrow> string \<times> World" where
  "Date_now_iso h w = (toISOString h (clock_reads w), w\<lparr>clock_reads := Suc (clock_reads w)\<rparr>)"

section \<open>The mock scoring functions of the dashboard\<close>

text \<open>JavaScript truthiness of a property that holds a string or is absent.\<close>

fun truthy :: "string option \<Rightarrow> bool" where
  "truthy None = False"
| "truthy (Some s) = (s \<noteq> [])"

text \<open>\<open>`ACC-${Math.random().toString(36).substr(2, 6).toUpperCase()}`\<close>\<close>

definition random_account :: "Host \<Rightarrow> World \<Rightarrow> string \<times> World" where
  "random_account h w =
     (let (r, w1) = Math_random h w
      in (''ACC-'' @ toUpperCase (take 6 (drop 2 (toString36 h r))), w1))"

text \<open>\<open>Math.random() > 0.7 ? 'HIGH' : Math.random() > 0.4 ? 'MEDIUM' : 'LOW'\<close>:
  the second number is drawn only when the first test fails.\<close>

definition random_level :: "Host \<Rightarrow> World \<Rightarrow> RiskLevel \<times> World" where
  "random_level h w =
     (let (r1, w1) = Math_random h w
      in if r1 > 0.7 then (HIGH, w1)
         else let (r2, w2) = Math_random h w1
              in if r2 > 0.4 then (MEDIUM, w2) else (LOW, w2))"

text \<open>\<open>codes.slice(0, Math.floor(Math.random() * 3) + 1)\<close>\<close>

definition random_slice :: "Host \<Rightarrow> string list \<Rightarrow> World \<Rightarrow> string list \<times> World" where
  "random_slice h codes w =
     (let (r, w1) = Math_random h w
      in (take (nat \<lfloor>r * 3\<rfloor> + 1) codes, w1))"

text \<open>\<open>`TXN-${String(index + 1).padStart(6, '0')}`\<close>\<close>

definition txn_id :: "nat \<Rightarrow> string" where
  "txn_id index = ''TXN-'' @ padStart (String_nat (index + 1)) 6 (CHR ''0'')"

text \<open>
  The callback of \<open>map\<close> in \<open>mockPredict\<close>: the object literal, its properties evaluated
  in the order they are written. \<open>parseFloat\<close> of the random amount, a number, is that
  number.
\<close>

definition predict_row :: "Host \<Rightarrow> nat \<Rightarrow> Row \<Rightarrow> World \<Rightarrow> Transaction \<times> World" where
  "predict_row h index row w =
     (let (am, w1) = (if truthy (row ''amount'') then (parseFloat (the (row ''amount'')), w)
                      else let (r, w') = Math_random h w in (Fin (r * 100000), w'));
          (fa, w2) = (if truthy (row ''from_account'') then (the (row ''from_account''), w1)
                      else random_account h w1);
          (ta, w3) = (if truthy (row ''to_account'') then (the (row ''to_account''), w2)
                      else random_account h w2);
          (ts, w4) = (if truthy (row ''timestamp'') then (the (row ''timestamp''), w3)
                      else Date_now_iso h w3);
          (sc, w5) = Math_random h w4;
          (lv, w6) = random_level h w5;
          (rc, w7) = random_slice h [''LARGE_AMOUNT'', ''UNUSUAL_PATTERN'', ''CROSS_BORDER''] w6
      in (\<lparr>tid = txn_id index,
           amount = am, from_account = fa, to_account = ta, timestamp = ts,
           risk_score = Fin sc, risk_level = lv, reason_codes = rc, status = FLAGGED\<rparr>, w7))"

fun predict_rows :: "Host \<Rightarrow> nat \<Rightarrow> Row list \<Rightarrow> World \<Rightarrow> Transaction list \<times> World" where
  "predict_rows h index [] w = ([], w)"
| "predict_rows h index (row # rows) w =
     (let (tx, w1) = predict_row h index row w;
          (txs, w2) = predict_rows h (Suc index) rows w1
      in (tx # txs, w2))"

text \<open>\<open>data.slice(0, Math.min(10, data.length)).map(...)\<close>; the delay is not modelled.\<close>

definition mockPredict :: "Host \<Rightarrow> Row list \<Rightarrow> World \<Rightarrow> Transaction list \<times> World" where
  "mockPredict h data w = predict_rows h 0 (take (min 10 (length data)) data) w"

text \<open>The request the simulator form sends: the form fields, the amount parsed.\<close>

record SimRequest =
  req_amount :: number
  req_from_account :: string
  req_to_account :: string
  req_transaction_type :: string
  req_timestamp :: string

text \<open>
  The quantization written in \<open>mockSimulate\<close>. The score and the two thresholds are
  compared as reals.
\<close>

definition quantize :: "real \<Rightarrow> RiskLevel" where
  "quantize s = (if s > 0.7 then HIGH else if s > 0.4 then MEDIUM else LOW)"

definition mockSimulate :: "Host \<Rightarrow> SimRequest \<Rightarrow> World \<Rightarrow> SimulationResult \<times> World" where
  "mockSimulate h transaction w =
     (let (score, w1) = Math_random h w;
          level = (if score > 0.7 then HIGH else if score > 0.4 then MEDIUM else LOW);
          (factors, w2) = random_slice h [''LARGE_AMOUNT'', ''UNUSUAL_TIME'', ''NEW_RECIPIENT''] w1
      in (\<lparr>sim_risk_score = Fin score, sim_risk_level = level, risk_factors = factors,
           explanation = ''This transaction has a '' @ toLowerCase (risk_string level)
             @ '' risk profile based on amount, timing, and recipient analysis.''\<rparr>, w2))"

section \<open>The state of the dashboard and of the simulator form\<close>

record Toast =
  title :: string
  description :: string
  destructive :: bool

record FormData =
  form_amount :: string
  form_from_account :: string
  form_to_account :: string
  transaction_type :: string

text \<open>The \<open>useState\<close> cells of \<open>AMLDashboard\<close>.\<close>

record Dashboard =
  uploadedData :: "Row list"
  suspiciousTransactions :: "Transaction list"
  isProcessing :: bool
  selectedTransaction :: "Transaction option"

text \<open>The \<open>useState\<close> cells of \<open>TransactionSimulator\<close>.\<close>

record Simulator =
  formData :: FormData
  result :: "SimulationResult option"
  isLoading :: bool

text \<open>
  The whole page: both components, the toasts shown so far (oldest first), and the
  position in the host's streams of random numbers and clock readings.
\<close>

record Page =
  dashboard :: Dashboard
  simulator :: Simulator
  toasts :: "Toast list"
  world :: World

definition toast :: "Toast \<Rightarrow> Page \<Rightarrow> Page" where
  "toast t s = s\<lparr>toasts := toasts s @ [t]\<rparr>"

text \<open>
  \<open>handleDataUpload\<close>. \<open>mockPredict\<close> has no statement that throws, so the \<open>catch\<close>
  branch ("Analysis Failed") is never entered and has no counterpart here.
\<close>

definition handleDataUpload :: "Host \<Rightarrow> Row list \<Rightarrow> Page \<Rightarrow> Page" where
  "handleDataUpload h data s =
     (let s1 = s\<lparr>dashboard := (dashboard s)\<lparr>uploadedData := data, isProcessing := True\<rparr>\<rparr>;
          (suspicious, w1) = mockPredict h data (world s1);
          s2 = s1\<lparr>dashboard := (dashboard s1)\<lparr>suspiciousTransactions := suspicious\<rparr>, world := w1\<rparr>;
          s3 = toast \<lparr>title = ''Analysis Complete'',
                     description = ''Found '' @ String_nat (length suspicious)
                                     @ '' suspicious transactions'',
                     destructive = False\<rparr> s2
      in s3\<lparr>dashboard := (dashboard s3)\<lparr>isProcessing := False\<rparr>\<rparr>)"

text \<open>A promise is fulfilled with a value (\<open>Inr\<close>) or rejected (\<open>Inl\<close>).\<close>

datatype Rejection = Rejected

type_synonym OnSimulate = "SimRequest \<Rightarrow> World \<Rightarrow> (Rejection + SimulationResult) \<times> World"

text \<open>\<open>handleSimulate\<close> of the simulator form, for the \<open>onSimulate\<close> prop it was given.\<close>

definition handleSimulate :: "Host \<Rightarrow> OnSimulate \<Rightarrow> Page \<Rightarrow> Page" where
  "handleSimulate h onSimulate s =
     (let fd = formData (simulator s)
      in if form_amount fd = [] \<or> form_from_account fd = [] \<or> form_to_account fd = [] then
           toast \<lparr>title = ''Missing Information'',
                  description = ''Please fill in all required fields'',
                  destructive = True\<rparr> s
         else
           let s1 = s\<lparr>simulator := (simulator s)\<lparr>isLoading := True\<rparr>\<rparr>;
               (ts, w1) = Date_now_iso h (world s1);
               transaction = \<lparr>req_amount = parseFloat (form_amount fd),
                              req_from_account = form_from_account fd,
                              req_to_account = form_to_account fd,
                              req_transaction_type = transaction_type fd,
                              req_timestamp = ts\<rparr>;
               (outcome, w2) = onSimulate transaction w1;
               s2 = s1\<lparr>world := w2\<rparr>;
               s3 = (case outcome of
                       Inr simulationResult \<Rightarrow>
                         s2\<lparr>simulator := (simulator s2)\<lparr>result := Some simulationResult\<rparr>\<rparr>
                     | Inl _ \<Rightarrow>
                         toast \<lparr>title = ''Simulation Error'',
                                description = ''Failed to analyze transaction'',
                                destructive = True\<rparr> s2)
           in s3\<lparr>simulator := (simulator s3)\<lparr>isLoading := False\<rparr>\<rparr>)"

text \<open>The prop the dashboard passes: \<open>onSimulate={mockSimulate}\<close>, which never rejects.\<close>

definition onSimulate_mock :: "Host \<Rightarrow> OnSimulate" where
  "onSimulate_mock h transaction w = (let (r, w1) = mockSimulate h transaction w in (Inr r, w1))"

text \<open>The user fills the form (\<open>handleInputChange\<close> clears the result), then submits.\<close>

definition fill_and_simulate :: "Host \<Rightarrow> OnSimulate \<Rightarrow> FormData \<Rightarrow> Page \<Rightarrow> Page" where
  "fill_and_simulate h onSimulate fd s =
     handleSimulate h onSimulate (s\<lparr>simulator := (simulator s)\<lparr>formData := fd, result := None\<rparr>\<rparr>)"

text \<open>Any number of simulations, one after the other, each with its own form contents.\<close>

fun simulate_many :: "Host \<Rightarrow> OnSimulate \<Rightarrow> FormData list \<Rightarrow> Page \<Rightarrow> Page" where
  "simulate_many h onSimulate [] s = s"
| "simulate_many h onSimulate (fd # fds) s =
     simulate_many h onSimulate fds (fill_and_simulate h onSimulate fd s)"

section \<open>The derived graph\<close>

definition graphNodes :: "Transaction list \<Rightarrow> Node list" where
  "graphNodes txs =
     map (\<lambda>tx. \<lparr>node_id = from_account tx, node_label = from_account tx,
                 node_risk_level = risk_level tx, account_type = ''Standard'',
                 total_volume = amount tx\<rparr>) txs"

definition graphEdges :: "Transaction list \<Rightarrow> Edge list" where
  "graphEdges txs =
     map (\<lambda>tx. \<lparr>edge_from = from_account tx, edge_to = to_account tx,
                 edge_amount = amount tx, suspicious = (risk_level tx = HIGH)\<rparr>) txs"

section \<open>The query of the transactions table\<close>

datatype SortField =
  By_id | By_amount | By_from_account | By_to_account | By_timestamp
  | By_risk_score | By_risk_level | By_reason_codes | By_status

datatype SortDirection = Asc | Desc

text \<open>The filter callback: \<open>matchesSearch && matchesRisk\<close>.\<close>

definition matches :: "string \<Rightarrow> string \<Rightarrow> Transaction \<Rightarrow> bool" where
  "matches searchTerm filterRisk tx =
     (let matchesSearch =
            (includes_str (toLowerCase (from_account tx)) (toLowerCase searchTerm)
             \<or> includes_str (toLowerCase (to_account tx)) (toLowerCase searchTerm)
             \<or> includes_str (toLowerCase (tid tx)) (toLowerCase searchTerm));
          matchesRisk = (filterRisk = ''all'' \<or> risk_string (risk_level tx) = filterRisk)
      in matchesSearch \<and> matchesRisk)"

text \<open>
  \<open>typeof aVal === 'number' && typeof bVal === 'number'\<close>: both values are read from the
  same field, so the test holds exactly for the two fields of type \<open>number\<close>.
\<close>

fun is_number_field :: "SortField \<Rightarrow> bool" where
  "is_number_field By_amount = True"
| "is_number_field By_risk_score = True"
| "is_number_field _ = False"

fun number_value :: "SortField \<Rightarrow> Transaction \<Rightarrow> number" where
  "number_value By_amount tx = amount tx"
| "number_value By_risk_score tx = risk_score tx"
| "number_value _ tx = NaN"

fun join_comma :: "string list \<Rightarrow> string" where
  "join_comma [] = []"
| "join_comma [s] = s"
| "join_comma (s # t # ss) = s @ '','' @ join_comma (t # ss)"

text \<open>\<open>String(aVal)\<close> for the fields that are not numbers.\<close>

fun String_value :: "SortField \<Rightarrow> Transaction \<Rightarrow> string" where
  "String_value By_id tx = tid tx"
| "String_value By_from_account tx = from_account tx"
| "String_value By_to_account tx = to_account tx"
| "String_value By_timestamp tx = timestamp tx"
| "String_value By_risk_level tx = risk_string (risk_level tx)"
| "String_value By_reason_codes tx = join_comma (reason_codes tx)"
| "String_value By_status tx = status_string (status tx)"
| "String_value _ tx = []"

definition multiplier :: "SortDirection \<Rightarrow> real" where
  "multiplier d = (if d = Asc then 1 else - 1)"

text \<open>The sort callback; its result is a JavaScript number.\<close>

definition compare_tx :: "Host \<Rightarrow> SortField \<Rightarrow> SortDirection \<Rightarrow> Transaction \<Rightarrow> Transaction \<Rightarrow> number" where
  "compare_tx h sortField sortDirection a b =
     (if is_number_field sortField then
        num_mul (num_sub (number_value sortField a) (number_value sortField b))
                (Fin (multiplier sortDirection))
      else
        num_mul (Fin (real_of_int (localeCompare h (String_value sortField a) (String_value sortField b))))
                (Fin (multiplier sortDirection)))"

text \<open>
  The sort reads the callback's result as a number, NaN as zero, and asks only whether
  it is negative.
\<close>

fun positive :: "number \<Rightarrow> bool" where
  "positive (Fin r) = (0 < r)"
| "positive PosInf = True"
| "positive NegInf = False"
| "positive NaN = False"

fun negative :: "number \<Rightarrow> bool" where
  "negative (Fin r) = (r < 0)"
| "negative PosInf = False"
| "negative NegInf = True"
| "negative NaN = False"

text \<open>
  \<open>Array.prototype.sort\<close> as V8 computes it for an array of fewer than 64 elements; the
  table's input, the store, never has more than ten. The run at the start of the array
  is found: strictly descending when the second element compares negative to the first,
  and then reversed, otherwise non-descending. The elements after the run are inserted
  one by one, each at the place a binary search gives. For a consistent comparator this
  is the stable sort ECMAScript asks of every engine; for an inconsistent one the order
  is implementation-defined, and this is V8's.
\<close>

text \<open>
  The loop of \<open>CountAndMakeRun\<close>: how far the run goes on after \<open>previous\<close>, and what is
  left of the array.
\<close>

fun run_more :: "('a \<Rightarrow> 'a \<Rightarrow> number) \<Rightarrow> bool \<Rightarrow> 'a \<Rightarrow> 'a list \<Rightarrow> 'a list \<times> 'a list" where
  "run_more cmp isDescending previous [] = ([], [])"
| "run_more cmp isDescending previous (current # rest) =
     (if (if isDescending then \<not> negative (cmp current previous)
          else negative (cmp current previous))
      then ([], current # rest)
      else (let (run, left) = run_more cmp isDescending current rest in (current # run, left)))"

text \<open>The run, reversed when it is descending, and the elements after it.\<close>

fun CountAndMakeRun :: "('a \<Rightarrow> 'a \<Rightarrow> number) \<Rightarrow> 'a list \<Rightarrow> 'a list \<times> 'a list" where
  "CountAndMakeRun cmp [] = ([], [])"
| "CountAndMakeRun cmp [x] = ([x], [])"
| "CountAndMakeRun cmp (elementHigh # elementLow # rest) =
     (let isDescending = negative (cmp elementLow elementHigh);
          (run, left) = run_more cmp isDescending elementLow rest
      in (if isDescending then rev (elementHigh # elementLow # run)
          else elementHigh # elementLow # run, left))"

text \<open>
  The binary search of \<open>BinaryInsertionSort\<close> in the sorted part \<open>ys\<close>: the place of
  \<open>pivot\<close> between \<open>left\<close> and \<open>right\<close>.
\<close>

function binary_search :: "('a \<Rightarrow> 'a \<Rightarrow> number) \<Rightarrow> 'a \<Rightarrow> 'a list \<Rightarrow> nat \<Rightarrow> nat \<Rightarrow> nat" where
  "binary_search cmp pivot ys left right =
     (if left < right then
        (let mid = left + (right - left) div 2
         in if negative (cmp pivot (ys ! mid)) then binary_search cmp pivot ys left mid
            else binary_search cmp pivot ys (mid + 1) right)
      else left)"
  by pat_completeness auto
termination
  by (relation "measure (\<lambda>(cmp, pivot, ys, left, right). right - left)") auto

declare binary_search.simps [simp del]

definition binary_insert :: "('a \<Rightarrow> 'a \<Rightarrow> number) \<Rightarrow> 'a list \<Rightarrow> 'a \<Rightarrow> 'a list" where
  "binary_insert cmp ys pivot =
     (let left = binary_search cmp pivot ys 0 (length ys)
      in take left ys @ [pivot] @ drop left ys)"

definition BinaryInsertionSort :: "('a \<Rightarrow> 'a \<Rightarrow> number) \<Rightarrow> 'a list \<Rightarrow> 'a list \<Rightarrow> 'a list" where
  "BinaryInsertionSort cmp run rest = foldl (binary_insert cmp) run rest"

definition sort_by :: "('a \<Rightarrow> 'a \<Rightarrow> number) \<Rightarrow> 'a list \<Rightarrow> 'a list" where
  "sort_by cmp xs =
     (if length xs < 2 then xs
      else let (run, rest) = CountAndMakeRun cmp xs in BinaryInsertionSort cmp run rest)"

text \<open>
  Arrays are objects: a heap of arrays, an array's address its index in the heap.
  \<open>filter\<close> allocates a new array and leaves its receiver alone; \<open>sort\<close> sorts its
  receiver in place and returns it.
\<close>

type_synonym 'a heap = "'a list list"

definition Array_filter :: "('a \<Rightarrow> bool) \<Rightarrow> nat \<Rightarrow> 'a heap \<Rightarrow> nat \<times> 'a heap" where
  "Array_filter p a hp = (length hp, hp @ [filter p (hp ! a)])"

definition Array_sort :: "('a \<Rightarrow> 'a \<Rightarrow> number) \<Rightarrow> nat \<Rightarrow> 'a heap \<Rightarrow> nat \<times> 'a heap" where
  "Array_sort cmp a hp = (a, hp[a := sort_by cmp (hp ! a)])"

text \<open>
  \<open>filteredAndSortedTransactions\<close>, computed on each render from the \<open>transactions\<close> prop
  (an address in the heap) and the four state cells of the table.
\<close>

definition filteredAndSortedTransactions ::
  "Host \<Rightarrow> SortField \<Rightarrow> SortDirection \<Rightarrow> string \<Rightarrow> string \<Rightarrow> nat \<Rightarrow> Transaction heap \<Rightarrow> nat \<times> Transaction heap" where
  "filteredAndSortedTransactions h sortField sortDirection filterRisk searchTerm transactions hp =
     (let (filtered, hp1) = Array_filter (matches searchTerm filterRisk) transactions hp
      in Array_sort (compare_tx h sortField sortDirection) filtered hp1)"

section \<open>The query as the specification words it\<close>




text \<open>
  Two elements tie under a comparator when its result for them is zero (or NaN, which
  the sort reads as zero).
\<close>

definition tie :: "('a \<Rightarrow> 'a \<Rightarrow> number) \<Rightarrow> 'a \<Rightarrow> 'a \<Rightarrow> bool" where
  "tie cmp x y = (\<not> negative (cmp x y) \<and> \<not> positive (cmp x y))"

text \<open>
  A comparator is consistent on a set when swapping its arguments swaps the sign of its
  result, and when an element that goes before a second one goes before any third one
  or has the third one go before the second.
\<close>

definition consistent :: "('a \<Rightarrow> 'a \<Rightarrow> number) \<Rightarrow> 'a set \<Rightarrow> bool" where
  "consistent cmp S =
     ((\<forall>x\<in>S. \<forall>y\<in>S. positive (cmp x y) \<longleftrightarrow> negative (cmp y x))
      \<and> (\<forall>x\<in>S. \<forall>y\<in>S. \<forall>z\<in>S. negative (cmp x y) \<longrightarrow> negative (cmp x z) \<or> negative (cmp z y)))"

text \<open>
  Case-sensitive lexicographic comparison of strings, character code by character code:
  negative, zero or positive.
\<close>

fun lex_compare :: "string \<Rightarrow> string \<Rightarrow> int" where
  "lex_compare [] [] = 0"
| "lex_compare [] (d # t) = - 1"
| "lex_compare (c # s) [] = 1"
| "lex_compare (c # s) (d # t) =
     (if (of_char c :: nat) < of_char d then - 1
      else if (of_char d :: nat) < of_char c then 1
      else lex_compare s t)"

text \<open>
  A collation of the kind \<open>localeCompare\<close> computes for English text: letters in
  alphabetical order whatever their case, the case (lower before upper) breaking ties.
\<close>

definition alphabetical_collation :: "string \<Rightarrow> string \<Rightarrow> int" where
  "alphabetical_collation s t =
     (if lex_compare (toLowerCase s) (toLowerCase t) \<noteq> 0
      then lex_compare (toLowerCase s) (toLowerCase t)
      else - lex_compare s t)"


section \<open>The graph invariant as the specification words it\<close>

definition touches :: "string \<Rightarrow> Transaction \<Rightarrow> bool" where
  "touches a tx = (from_account tx = a \<or> to_account tx = a)"

definition accounts :: "Transaction list \<Rightarrow> string list" where
  "accounts txs = remdups (map from_account txs @ map to_account txs)"

fun severity :: "RiskLevel \<Rightarrow> nat" where
  "severity HIGH = 2"
| "severity MEDIUM = 1"
| "severity LOW = 0"

definition volume_of :: "string \<Rightarrow> Transaction list \<Rightarrow> number" where
  "volume_of a txs = foldr num_add (map amount (filter (touches a) txs)) (Fin 0)"

definition max_severity :: "string \<Rightarrow> Transaction list \<Rightarrow> nat" where
  "max_severity a txs = foldr max (map (\<lambda>tx. severity (risk_level tx)) (filter (touches a) txs)) 0"

text \<open>
  Every account of a transaction has exactly one node; the node's volume is the sum of
  the amounts of the transactions touching the account, its level their highest severity.
\<close>

definition node_invariant :: "Transaction list \<Rightarrow> Node list \<Rightarrow> bool" where
  "node_invariant txs nodes =
     (\<forall>a \<in> set (accounts txs).
        length (filter (\<lambda>n. node_id n = a) nodes) = 1
        \<and> (\<forall>n \<in> set nodes. node_id n = a \<longrightarrow>
              total_volume n = volume_of a txs
              \<and> severity (node_risk_level n) = max_severity a txs))"

section \<open>Ingestion: what the specification asks and what is stored\<close>

text \<open>
  A valid raw transaction in the specification's words: a numeric amount that is not
  negative and account identifiers that are not empty.
\<close>

definition valid_row :: "Row \<Rightarrow> bool" where
  "valid_row row =
     (truthy (row ''from_account'') \<and> truthy (row ''to_account'') \<and> truthy (row ''amount'')
      \<and> (case parseFloat (the (row ''amount'')) of Fin r \<Rightarrow> 0 \<le> r | PosInf \<Rightarrow> True | NegInf \<Rightarrow> False | NaN \<Rightarrow> False))"

text \<open>What a stored transaction keeps of the row it was made from.\<close>

definition kept :: "Row \<Rightarrow> Transaction \<Rightarrow> bool" where
  "kept row tx =
     ((truthy (row ''amount'') \<longrightarrow> amount tx = parseFloat (the (row ''amount'')))
      \<and> (truthy (row ''from_account'') \<longrightarrow> from_account tx = the (row ''from_account''))
      \<and> (truthy (row ''to_account'') \<longrightarrow> to_account tx = the (row ''to_account''))
      \<and> (truthy (row ''timestamp'') \<longrightarrow> timestamp tx = the (row ''timestamp'')))"

text \<open>
  What is stored for a row that the specification calls invalid: the amount as
  \<open>parseFloat\<close> reads it, and a generated identifier in place of an empty account.
\<close>

definition defaulted :: "Row \<Rightarrow> Transaction \<Rightarrow> bool" where
  "defaulted row tx =
     ((truthy (row ''amount'') \<longrightarrow> amount tx = parseFloat (the (row ''amount'')))
      \<and> (\<not> truthy (row ''from_account'') \<longrightarrow> startsWith (from_account tx) ''ACC-'')
      \<and> (\<not> truthy (row ''to_account'') \<longrightarrow> startsWith (to_account tx) ''ACC-''))"

section \<open>Sample inputs\<close>

text \<open>
  A host whose first random number is 0.85 and whose later ones are 0.2, with the
  alphabetical collation.
\<close>

definition sample_host :: Host where
  "sample_host = \<lparr>random = (\<lambda>n. if n = 0 then 0.85 else 0.2),
                   toString36 = (\<lambda>r. ''0.k2f9x1c0a''),
                   toISOString = (\<lambda>n. ''2024-01-01T00:00:00.000Z''),
                   localeCompare = alphabetical_collation\<rparr>"

definition fresh_world :: World where
  "fresh_world = \<lparr>draws = 0, clock_reads = 0\<rparr>"

definition row_A_B :: Row where
  "row_A_B = [''amount'' \<mapsto> ''10000'', ''from_account'' \<mapsto> ''A'', ''to_account'' \<mapsto> ''B'']"

definition tx_A_B :: Transaction where
  "tx_A_B = \<lparr>tid = ''TXN-000001'', amount = Fin 10000, from_account = ''A'', to_account = ''B'',
             timestamp = ''2024-01-01T00:00:00.000Z'', risk_score = Fin 0.85, risk_level = HIGH,
             reason_codes = [''LARGE_AMOUNT''], status = FLAGGED\<rparr>"

definition tx_A_B_low :: Transaction where
  "tx_A_B_low = \<lparr>tid = ''TXN-000002'', amount = Fin 250, from_account = ''A'', to_account = ''B'',
             timestamp = ''2024-01-02T00:00:00.000Z'', risk_score = Fin 0.1, risk_level = LOW,
             reason_codes = [''CROSS_BORDER''], status = FLAGGED\<rparr>"

definition empty_page :: Page where
  "empty_page = \<lparr>dashboard = \<lparr>uploadedData = [], suspiciousTransactions = [], isProcessing = False,
                               selectedTransaction = None\<rparr>,
                  simulator = \<lparr>formData = \<lparr>form_amount = [], form_from_account = [],
                                            form_to_account = [], transaction_type = ''transfer''\<rparr>,
                               result = None, isLoading = False\<rparr>,
                  toasts = [], world = fresh_world\<rparr>"

definition page_one_stored :: Page where
  "page_one_stored = empty_page\<lparr>dashboard := (dashboard empty_page)\<lparr>suspiciousTransactions := [tx_A_B]\<rparr>\<rparr>"

definition form_no_amount :: FormData where
  "form_no_amount = \<lparr>form_amount = [], form_from_account = ''A'', form_to_account = ''B'',
                      transaction_type = ''transfer''\<rparr>"

definition form_filled :: FormData where
  "form_filled = \<lparr>form_amount = ''5000'', form_from_account = ''A'', form_to_account = ''B'',
                   transaction_type = ''transfer''\<rparr>"

definition page_no_amount :: Page where
  "page_no_amount = page_one_stored\<lparr>simulator := (simulator page_one_stored)\<lparr>formData := form_no_amount\<rparr>\<rparr>"

text \<open>A scoring function that always rejects and leaves a mark in the world.\<close>

definition onSimulate_rejecting :: OnSimulate where
  "onSimulate_rejecting transaction w = (Inl Rejected, w\<lparr>draws := draws w + 100\<rparr>)"

definition tx_medium :: Transaction where
  "tx_medium = \<lparr>tid = ''TXN-000003'', amount = Fin 250, from_account = ''ACC-A1'', to_account = ''ACC-X9'',
             timestamp = ''2024-01-03T00:00:00.000Z'', risk_score = Fin 0.5, risk_level = MEDIUM,
             reason_codes = [''LARGE_AMOUNT'', ''UNUSUAL_PATTERN''], status = FLAGGED\<rparr>"



text \<open>A heap whose only array holds three stored transactions.\<close>

definition heap_three :: "Transaction heap" where
  "heap_three = [tx_A_B_low, tx_medium, tx_A_B] # []"

text \<open>
  Five stored transactions with the amounts 3, 1, NaN, 2 and 0; ingestion stores NaN
  for an amount such as "abc".
\<close>

definition tx_T0 :: Transaction where
  "tx_T0 = tx_medium\<lparr>tid := ''TXN-000001'', amount := Fin 3\<rparr>"

definition tx_T1 :: Transaction where
  "tx_T1 = tx_medium\<lparr>tid := ''TXN-000002'', amount := Fin 1\<rparr>"

definition tx_T2 :: Transaction where
  "tx_T2 = tx_medium\<lparr>tid := ''TXN-000003'', amount := NaN\<rparr>"

definition tx_T3 :: Transaction where
  "tx_T3 = tx_medium\<lparr>tid := ''TXN-000004'', amount := Fin 2\<rparr>"

definition tx_T4 :: Transaction where
  "tx_T4 = tx_medium\<lparr>tid := ''TXN-000005'', amount := Fin 0\<rparr>"

definition heap_nan :: "Transaction heap" where
  "heap_nan = [tx_T0, tx_T1, tx_T2, tx_T3, tx_T4] # []"

text \<open>
  The uploaded rows that bring this store about, on a host whose random numbers are all
  0.5.
\<close>

definition steady_host :: Host where
  "steady_host = sample_host\<lparr>random := (\<lambda>n. 0.5)\<rparr>"

definition row_amount :: "string \<Rightarrow> Row" where
  "row_amount a = [''amount'' \<mapsto> a, ''from_account'' \<mapsto> ''ACC-A1'', ''to_account'' \<mapsto> ''ACC-X9'',
                   ''timestamp'' \<mapsto> ''2024-01-03T00:00:00.000Z'']"

definition rows_nan :: "Row list" where
  "rows_nan = [row_amount ''3'', row_amount ''1'', row_amount ''abc'', row_amount ''2'', row_amount ''0'']"

definition row_negative :: Row where
  "row_negative = [''amount'' \<mapsto> ''-5'', ''from_account'' \<mapsto> ''A'', ''to_account'' \<mapsto> ''B'']"

definition row_junk :: Row where
  "row_junk = [''amount'' \<mapsto> ''abc'', ''from_account'' \<mapsto> '''', ''to_account'' \<mapsto> ''B'']"

section \<open>Scoring: the level and the score\<close>

lemmas case_defs = toLowerCase_def toLowerCase_char_def upper_letters_def lower_letters_def

lemmas sample_txs = tx_A_B_def tx_A_B_low_def tx_medium_def

lemmas tx_T_defs = tx_T0_def tx_T1_def tx_T2_def tx_T3_def tx_T4_def tx_medium_def

lemmas sort_by_defs = sort_by_def BinaryInsertionSort_def binary_insert_def binary_search.simps

lemmas parseFloat_defs = parseFloat_def parse_unsigned_def is_space_def is_digit_def digits_val_def
  digit_val_def exponent_part_def scale10_def num_neg_def

lemma mockSimulate_quantized:
  "sim_risk_score (fst (mockSimulate h t w)) = Fin (random h (draws w))
   \<and> sim_risk_level (fst (mockSimulate h t w)) = quantize (random h (draws w))"
  by (simp add: mockSimulate_def Math_random_def random_slice_def quantize_def split: prod.splits)

text \<open>
  C1. The level of a simulation result is the quantization of its score
  (\<open>mockSimulate_quantized\<close>), as the claim says. \<open>mockPredict\<close> does not compute the
  level from the score: it draws the score, then draws fresh random numbers for the
  level. On a host whose random numbers are 0.85, 0.2, 0.2, ... the one-row batch
  \<open>row_A_B\<close> is stored with score 0.85 and level LOW, where the quantization of 0.85
  is HIGH.
\<close>

theorem mockPredict_level_independent_of_score:
  "risk_score (hd (fst (mockPredict sample_host [row_A_B] fresh_world))) = Fin 0.85
   \<and> risk_level (hd (fst (mockPredict sample_host [row_A_B] fresh_world))) = LOW
   \<and> quantize 0.85 = HIGH"
  by (simp add: mockPredict_def predict_row_def sample_host_def fresh_world_def row_A_B_def
      Math_random_def Date_now_iso_def random_level_def random_slice_def quantize_def parseFloat_defs)

section \<open>The derived graph\<close>

text \<open>
  C9. The edge list has one edge per stored transaction, in store order: the edge at
  position \<open>i\<close> carries the sender, receiver and amount of the transaction at position
  \<open>i\<close> and is suspicious exactly when that transaction's level is HIGH. Transactions
  between the same two accounts are not merged: there are as many edges from \<open>a\<close> to
  \<open>b\<close> as there are transactions from \<open>a\<close> to \<open>b\<close>.
\<close>

theorem graphEdges_one_per_transaction:
  "length (graphEdges txs) = length txs
   \<and> (\<forall>i<length txs.
         edge_from (graphEdges txs ! i) = from_account (txs ! i)
         \<and> edge_to (graphEdges txs ! i) = to_account (txs ! i)
         \<and> edge_amount (graphEdges txs ! i) = amount (txs ! i)
         \<and> (suspicious (graphEdges txs ! i) \<longleftrightarrow> risk_level (txs ! i) = HIGH))
   \<and> length (filter (\<lambda>e. edge_from e = a \<and> edge_to e = b) (graphEdges txs))
       = length (filter (\<lambda>tx. from_account tx = a \<and> to_account tx = b) txs)"
  by (simp add: graphEdges_def filter_map comp_def)

theorem graphEdges_one_per_transaction_witness:
  "(1::nat) < length [tx_A_B, tx_A_B_low]
   \<and> length (graphEdges [tx_A_B, tx_A_B_low]) = 2
   \<and> edge_from (graphEdges [tx_A_B, tx_A_B_low] ! 1) = ''A''
   \<and> edge_to (graphEdges [tx_A_B, tx_A_B_low] ! 1) = ''B''
   \<and> edge_amount (graphEdges [tx_A_B, tx_A_B_low] ! 1) = Fin 250
   \<and> \<not> suspicious (graphEdges [tx_A_B, tx_A_B_low] ! 1)
   \<and> length (filter (\<lambda>e. edge_from e = ''A'' \<and> edge_to e = ''B'') (graphEdges [tx_A_B, tx_A_B_low])) = 2"
  using graphEdges_one_per_transaction [of "[tx_A_B, tx_A_B_low]" "''A''" "''B''"]
  by (simp add: tx_A_B_def tx_A_B_low_def)

text \<open>
  C2, as claimed, fails: for the single stored transaction from A to B the node list has
  a node for A and none for B, although B is an account of a stored transaction.
\<close>

theorem graphNodes_invariant_counterexample:
  "\<not> node_invariant [tx_A_B] (graphNodes [tx_A_B])"
  by (simp add: node_invariant_def accounts_def graphNodes_def tx_A_B_def)

text \<open>
  C2, amended. The node list has one node per stored transaction, in store order: the
  node at position \<open>i\<close> has the sender of the transaction at position \<open>i\<close> as its id and
  label, that transaction's level as its level, that transaction's amount as its volume,
  and the account type "Standard".
\<close>

theorem graphNodes_one_per_transaction:
  "length (graphNodes txs) = length txs
   \<and> (\<forall>i<length txs.
         node_id (graphNodes txs ! i) = from_account (txs ! i)
         \<and> node_label (graphNodes txs ! i) = from_account (txs ! i)
         \<and> node_risk_level (graphNodes txs ! i) = risk_level (txs ! i)
         \<and> account_type (graphNodes txs ! i) = ''Standard''
         \<and> total_volume (graphNodes txs ! i) = amount (txs ! i))"
  by (simp add: graphNodes_def)

theorem graphNodes_one_per_transaction_witness:
  "(1::nat) < length [tx_A_B, tx_A_B_low]
   \<and> length (graphNodes [tx_A_B, tx_A_B_low]) = 2
   \<and> node_id (graphNodes [tx_A_B, tx_A_B_low] ! 1) = ''A''
   \<and> node_risk_level (graphNodes [tx_A_B, tx_A_B_low] ! 1) = LOW
   \<and> total_volume (graphNodes [tx_A_B, tx_A_B_low] ! 1) = Fin 250"
  using graphNodes_one_per_transaction [of "[tx_A_B, tx_A_B_low]"]
  by (simp add: tx_A_B_def tx_A_B_low_def)

section \<open>Ingestion\<close>

lemma predict_row_kept: "kept row (fst (predict_row h i row w))"
  by (simp add: kept_def predict_row_def Let_def case_prod_beta)

lemma startsWith_append: "startsWith (p @ s) p"
  by (induction p) simp_all

lemma random_account_prefix: "startsWith (fst (random_account h w)) ''ACC-''"
  by (simp add: random_account_def split: prod.splits)

lemma predict_row_defaulted: "defaulted row (fst (predict_row h i row w))"
  by (simp add: defaulted_def predict_row_def Let_def case_prod_beta random_account_prefix)

lemma predict_rows_all2:
  assumes "\<And>row i w. P row (fst (predict_row h i row w))"
  shows "list_all2 P rows (fst (predict_rows h k rows w))"
proof (induction rows arbitrary: k w)
  case Nil
  show ?case by simp
next
  case (Cons row rows)
  obtain tx w1 where r: "predict_row h k row w = (tx, w1)" by (cases "predict_row h k row w")
  have "P row tx" using assms [of row k w] r by simp
  moreover have "list_all2 P rows (fst (predict_rows h (Suc k) rows w1))" by (rule Cons.IH)
  ultimately show ?case using r by (auto split: prod.splits)
qed

lemma predict_row_tid: "tid (fst (predict_row h i row w)) = txn_id i"
  by (simp add: predict_row_def Let_def case_prod_beta)

lemma predict_rows_tid:
  "map tid (fst (predict_rows h k rows w)) = map txn_id [k..<k + length rows]"
proof (induction rows arbitrary: k w)
  case Nil
  show ?case by simp
next
  case (Cons row rows)
  obtain tx w1 where r: "predict_row h k row w = (tx, w1)" by (cases "predict_row h k row w")
  obtain txs w2 where rs: "predict_rows h (Suc k) rows w1 = (txs, w2)"
    by (cases "predict_rows h (Suc k) rows w1")
  have t: "tid tx = txn_id k"
    using predict_row_tid [of h k row w] r by simp
  have ih: "map tid txs = map txn_id [Suc k..<Suc k + length rows]"
    using Cons.IH [of "Suc k" w1] rs by simp
  have e: "[k..<k + length (row # rows)] = k # [Suc k..<Suc k + length rows]"
    by (simp add: upt_conv_Cons del: upt_Suc)
  show ?case unfolding e using r rs t ih by simp
qed

lemma take_min_length: "take (min n (length xs)) xs = take n xs"
  by (simp add: min_def)

lemma mockPredict_take: "mockPredict h data w = predict_rows h 0 (take 10 data) w"
  by (simp add: mockPredict_def take_min_length)

lemma handleDataUpload_store:
  "suspiciousTransactions (dashboard (handleDataUpload h data s)) = fst (mockPredict h data (world s))"
  by (simp add: handleDataUpload_def toast_def Let_def split: prod.splits)

lemma handleDataUpload_toasts:
  "toasts (handleDataUpload h data s)
     = toasts s @ [\<lparr>title = ''Analysis Complete'',
                    description = ''Found '' @ String_nat (length (fst (mockPredict h data (world s))))
                                    @ '' suspicious transactions'',
                    destructive = False\<rparr>]"
  by (simp add: handleDataUpload_def toast_def Let_def split: prod.splits)

lemma length_predict_rows: "length (fst (predict_rows h k rows w)) = length rows"
  using predict_rows_all2 [of "\<lambda>_ _. True" h rows k w] by (simp add: list_all2_lengthD)

lemma length_mockPredict: "length (fst (mockPredict h data w)) = min 10 (length data)"
  by (simp add: mockPredict_def length_predict_rows)

text \<open>
  C4, as claimed, fails: of a batch of eleven valid records only ten are stored.
\<close>

theorem ingest_counterexample_dropped:
  "list_all valid_row (replicate 11 row_A_B)
   \<and> length (suspiciousTransactions (dashboard (handleDataUpload sample_host (replicate 11 row_A_B) empty_page)))
       \<noteq> length (replicate 11 row_A_B)"
  by (simp add: handleDataUpload_store length_mockPredict list_all_length valid_row_def row_A_B_def parseFloat_defs)

text \<open>
  C4, amended. Whatever the batch, after the upload handler has run the store holds one
  transaction for each of the first ten records of the batch (for all of them when there
  are at most ten), in the order of the input: the transaction at position \<open>i\<close> keeps
  the amount, accounts and time stamp that record \<open>i\<close> gives and has the identifier
  numbered \<open>i + 1\<close>. Records after the tenth are not stored.
\<close>

theorem ingest_first_ten_in_order:
  "list_all2 kept (take 10 data) (suspiciousTransactions (dashboard (handleDataUpload h data s)))
   \<and> map tid (suspiciousTransactions (dashboard (handleDataUpload h data s)))
       = map txn_id [0..<min 10 (length data)]"
  using predict_rows_all2 [of kept h "take 10 data" 0 "world s", OF predict_row_kept]
    predict_rows_tid [of h 0 "take 10 data" "world s"]
  by (simp add: handleDataUpload_store mockPredict_take min.commute)

theorem ingest_first_ten_in_order_witness:
  "truthy (row_A_B ''amount'') \<and> truthy (row_A_B ''from_account'') \<and> truthy (row_A_B ''to_account'')
   \<and> map amount (suspiciousTransactions (dashboard (handleDataUpload sample_host [row_A_B] empty_page))) = [Fin 10000]
   \<and> map from_account (suspiciousTransactions (dashboard (handleDataUpload sample_host [row_A_B] empty_page))) = [''A'']
   \<and> map to_account (suspiciousTransactions (dashboard (handleDataUpload sample_host [row_A_B] empty_page))) = [''B'']
   \<and> map tid (suspiciousTransactions (dashboard (handleDataUpload sample_host [row_A_B] empty_page))) = [''TXN-000001'']"
proof -
  let ?store = "suspiciousTransactions (dashboard (handleDataUpload sample_host [row_A_B] empty_page))"
  note t = ingest_first_ten_in_order [of "[row_A_B]" sample_host empty_page]
  have r: "truthy (row_A_B ''amount'')" "truthy (row_A_B ''from_account'')"
    "truthy (row_A_B ''to_account'')"
    by (simp_all add: row_A_B_def)
  have v: "the (row_A_B ''from_account'') = ''A''" "the (row_A_B ''to_account'') = ''B''"
    "parseFloat (the (row_A_B ''amount'')) = Fin 10000"
    by (simp_all add: row_A_B_def parseFloat_defs)
  have "list_all2 kept [row_A_B] ?store" using t by simp
  then obtain tx where s: "?store = [tx]" and k: "kept row_A_B tx"
    by (auto simp add: list_all2_Cons1)
  have i: "map tid ?store = [''TXN-000001'']"
    using t by (simp add: txn_id_def padStart_def String_nat.simps digit_char_def numeral_eq_Suc)
  show ?thesis using r v k i by (simp add: s kept_def)
qed

text \<open>
  C3, as claimed, fails: a batch whose only record has the amount -5, uploaded into an
  empty store, is stored with the amount -5 and reported as analysed.
\<close>

theorem ingest_no_validation_counterexample:
  "\<not> valid_row row_negative
   \<and> suspiciousTransactions (dashboard empty_page) = []
   \<and> map amount (suspiciousTransactions (dashboard (handleDataUpload sample_host [row_negative] empty_page))) = [Fin (- 5)]
   \<and> map title (toasts (handleDataUpload sample_host [row_negative] empty_page)) = [''Analysis Complete'']"
  by (simp add: handleDataUpload_def toast_def empty_page_def valid_row_def row_negative_def mockPredict_def predict_row_def sample_host_def fresh_world_def 
      Math_random_def Date_now_iso_def random_level_def random_slice_def parseFloat_defs)

text \<open>
  C3, amended. The upload handler validates nothing and never fails: for every batch it
  reports "Analysis Complete" and replaces the store by the scored first ten records.
  An amount is stored as \<open>parseFloat\<close> reads it (a negative number as it is, a text
  that does not start with a number as NaN), and an account identifier that is empty or
  absent is replaced by a generated one that starts with "ACC-".
\<close>

theorem ingest_never_fails:
  "map title (toasts (handleDataUpload h data s)) = map title (toasts s) @ [''Analysis Complete'']
   \<and> length (suspiciousTransactions (dashboard (handleDataUpload h data s))) = min 10 (length data)
   \<and> list_all2 defaulted (take 10 data) (suspiciousTransactions (dashboard (handleDataUpload h data s)))"
  using predict_rows_all2 [of defaulted h "take 10 data" 0 "world s", OF predict_row_defaulted]
  using length_mockPredict [of h data "world s"]
  by (simp add: handleDataUpload_store handleDataUpload_toasts mockPredict_take)

theorem ingest_never_fails_witness:
  "truthy (row_junk ''amount'') \<and> \<not> truthy (row_junk ''from_account'')
   \<and> map amount (suspiciousTransactions (dashboard (handleDataUpload sample_host [row_junk] empty_page))) = [NaN]
   \<and> list_all (\<lambda>tx. startsWith (from_account tx) ''ACC-'')
        (suspiciousTransactions (dashboard (handleDataUpload sample_host [row_junk] empty_page)))
   \<and> map title (toasts (handleDataUpload sample_host [row_junk] empty_page)) = [''Analysis Complete'']"
  using ingest_never_fails [of sample_host "[row_junk]" empty_page]
  by (auto simp add: list_all2_Cons1 defaulted_def row_junk_def parseFloat_defs empty_page_def)

section \<open>Simulation\<close>

lemma handleSimulate_dashboard: "dashboard (handleSimulate h onSimulate s) = dashboard s"
  by (simp add: handleSimulate_def toast_def Let_def split: prod.splits sum.splits)

lemma fill_and_simulate_dashboard: "dashboard (fill_and_simulate h onSimulate fd s) = dashboard s"
  by (simp add: fill_and_simulate_def handleSimulate_dashboard)

lemma simulate_many_dashboard: "dashboard (simulate_many h onSimulate fds s) = dashboard s"
  by (induction fds arbitrary: s) (simp_all add: fill_and_simulate_dashboard)

lemma handleSimulate_filled_invokes:
  assumes "form_amount (formData (simulator s)) \<noteq> []"
    and "form_from_account (formData (simulator s)) \<noteq> []"
    and "form_to_account (formData (simulator s)) \<noteq> []"
  shows "draws (world (handleSimulate h (onSimulate_mock h) s)) = draws (world s) + 2
         \<and> (\<exists>r. result (simulator (handleSimulate h (onSimulate_mock h) s)) = Some r
                 \<and> sim_risk_level r = quantize (random h (draws (world s))))"
  using assms
  by (simp add: handleSimulate_def onSimulate_mock_def mockSimulate_def Math_random_def
      Date_now_iso_def random_slice_def quantize_def Let_def split: prod.splits)

text \<open>
  C5. Simulation commits nothing: after any number of simulations, whatever the form
  contents and whatever the scoring function answers, the dashboard's state (the upload,
  the stored transactions, the processing flag and the selection) is what it was, and so
  are the node list and the edge list derived from the stored transactions. What a
  simulation does change is the simulator's own result and loading flag, the toasts, and
  how far the host's random numbers and clock have been read.
\<close>

theorem simulate_non_committing:
  "dashboard (simulate_many h onSimulate fds s) = dashboard s
   \<and> suspiciousTransactions (dashboard (simulate_many h onSimulate fds s)) = suspiciousTransactions (dashboard s)
   \<and> graphNodes (suspiciousTransactions (dashboard (simulate_many h onSimulate fds s)))
       = graphNodes (suspiciousTransactions (dashboard s))
   \<and> graphEdges (suspiciousTransactions (dashboard (simulate_many h onSimulate fds s)))
       = graphEdges (suspiciousTransactions (dashboard s))"
  by (simp add: simulate_many_dashboard)

text \<open>
  C10. When the amount, the sender or the receiver of the form is the empty string, the
  submit handler does not call the scoring function: its outcome is the same for every
  scoring function and the world the scoring function would read and advance is
  untouched. The simulator's state, the previous result included, and the dashboard stay
  as they were, and one toast "Missing Information" is added.
\<close>

theorem handleSimulate_missing_field:
  assumes "form_amount (formData (simulator s)) = []
           \<or> form_from_account (formData (simulator s)) = []
           \<or> form_to_account (formData (simulator s)) = []"
  shows "handleSimulate h onSimulate s = handleSimulate h onSimulate' s
         \<and> world (handleSimulate h onSimulate s) = world s
         \<and> simulator (handleSimulate h onSimulate s) = simulator s
         \<and> dashboard (handleSimulate h onSimulate s) = dashboard s
         \<and> toasts (handleSimulate h onSimulate s)
             = toasts s @ [\<lparr>title = ''Missing Information'',
                            description = ''Please fill in all required fields'',
                            destructive = True\<rparr>]"
  using assms by (auto simp add: handleSimulate_def toast_def Let_def)

theorem handleSimulate_missing_field_witness:
  "form_amount (formData (simulator page_no_amount)) = []
   \<and> handleSimulate sample_host (onSimulate_mock sample_host) page_no_amount
       = handleSimulate sample_host onSimulate_rejecting page_no_amount
   \<and> world (handleSimulate sample_host (onSimulate_mock sample_host) page_no_amount) = fresh_world
   \<and> result (simulator (handleSimulate sample_host (onSimulate_mock sample_host) page_no_amount)) = None
   \<and> map title (toasts (handleSimulate sample_host (onSimulate_mock sample_host) page_no_amount))
       = [''Missing Information'']"
proof -
  have e: "form_amount (formData (simulator page_no_amount)) = []"
    by (simp add: page_no_amount_def form_no_amount_def)
  have w: "world page_no_amount = fresh_world" "result (simulator page_no_amount) = None"
    "toasts page_no_amount = []"
    by (simp_all add: page_no_amount_def page_one_stored_def empty_page_def)
  note t = handleSimulate_missing_field [OF disjI1, OF e, of sample_host
      "onSimulate_mock sample_host" onSimulate_rejecting]
  note t2 = t [THEN conjunct2]
  show ?thesis
  proof (intro conjI)
    show "form_amount (formData (simulator page_no_amount)) = []" by (rule e)
    show "handleSimulate sample_host (onSimulate_mock sample_host) page_no_amount
            = handleSimulate sample_host onSimulate_rejecting page_no_amount"
      using t by blast
    show "world (handleSimulate sample_host (onSimulate_mock sample_host) page_no_amount) = fresh_world"
      using t2 w by simp
    show "result (simulator (handleSimulate sample_host (onSimulate_mock sample_host) page_no_amount)) = None"
      using t2 w by simp
    show "map title (toasts (handleSimulate sample_host (onSimulate_mock sample_host) page_no_amount))
            = [''Missing Information'']"
      using t2 w by simp
  qed
qed


section \<open>The query\<close>





lemma run_more_append: "run_more cmp d p cs = (r, l) \<Longrightarrow> r @ l = cs"
proof (induction cs arbitrary: p r l)
  case Nil
  then show ?case by simp
next
  case (Cons c cs)
  obtain r' l' where e: "run_more cmp d c cs = (r', l')" by (cases "run_more cmp d c cs")
  then have "r' @ l' = cs" by (rule Cons.IH)
  then show ?case using Cons.prems e by (auto split: if_splits)
qed

lemma CountAndMakeRun_mset: "CountAndMakeRun cmp xs = (run, rest) \<Longrightarrow> mset run + mset rest = mset xs"
proof (induction cmp xs rule: CountAndMakeRun.induct)
  case (1 cmp)
  then show ?case by simp
next
  case (2 cmp x)
  then show ?case by auto
next
  case (3 cmp a b cs)
  obtain r l where e: "run_more cmp (negative (cmp b a)) b cs = (r, l)"
    by (cases "run_more cmp (negative (cmp b a)) b cs")
  then have "r @ l = cs" by (rule run_more_append)
  then have "mset r + mset l = mset cs" by (metis mset_append)
  then show ?case using "3.prems" e by (auto simp add: Let_def split: if_splits)
qed

lemma mset_binary_insert: "mset (binary_insert cmp ys p) = add_mset p (mset ys)"
proof -
  have "mset (take k ys @ [p] @ drop k ys) = add_mset p (mset ys)" for k
    using append_take_drop_id [of k ys] by (metis mset_append union_mset_add_mset_right
        add_mset_add_single mset.simps union_assoc
        mset_single_iff_right union_commute)
  then show ?thesis by (simp add: binary_insert_def Let_def)
qed

lemma mset_BinaryInsertionSort: "mset (BinaryInsertionSort cmp run rest) = mset run + mset rest"
  unfolding BinaryInsertionSort_def
  by (induction rest arbitrary: run) (simp_all add: mset_binary_insert)

lemma mset_sort_by: "mset (sort_by cmp xs) = mset xs"
proof (cases "length xs < 2")
  case True
  then show ?thesis by (simp add: sort_by_def)
next
  case False
  obtain run rest where e: "CountAndMakeRun cmp xs = (run, rest)" by (cases "CountAndMakeRun cmp xs")
  then show ?thesis using False CountAndMakeRun_mset [OF e]
    by (simp add: sort_by_def mset_BinaryInsertionSort)
qed

lemma set_sort_by: "set (sort_by cmp xs) = set xs"
  using mset_sort_by [of cmp xs] by (metis set_mset_mset)

lemma query_value:
  assumes "transactions < length hp"
  shows "filteredAndSortedTransactions h sf sd fr st transactions hp
           = (length hp, hp @ [sort_by (compare_tx h sf sd) (filter (matches st fr) (hp ! transactions))])"
  by (simp add: filteredAndSortedTransactions_def Array_filter_def Array_sort_def)





subsection \<open>Tie order\<close>

text \<open>What a consistent comparator gives.\<close>

lemma positive_not_negative: "positive v \<Longrightarrow> \<not> negative v"
  by (cases v) simp_all

lemma consistent_asym:
  assumes "consistent cmp S" and "x \<in> S" and "y \<in> S" and "negative (cmp x y)"
  shows "\<not> negative (cmp y x)"
proof -
  have "positive (cmp y x)" using assms unfolding consistent_def by blast
  then show ?thesis by (rule positive_not_negative)
qed

lemma consistent_cotrans:
  assumes "consistent cmp S" and "x \<in> S" and "y \<in> S" and "z \<in> S" and "negative (cmp x y)"
  shows "negative (cmp x z) \<or> negative (cmp z y)"
  using assms unfolding consistent_def by blast

lemma consistent_trans:
  assumes "consistent cmp S" and "x \<in> S" and "y \<in> S" and "z \<in> S"
    and "negative (cmp x y)" and "negative (cmp y z)"
  shows "negative (cmp x z)"
proof -
  have "negative (cmp x z) \<or> negative (cmp z y)"
    using consistent_cotrans [OF assms(1) assms(2) assms(3) assms(4) assms(5)] .
  moreover have "\<not> negative (cmp z y)"
    using consistent_asym [OF assms(1) assms(3) assms(4) assms(6)] .
  ultimately show ?thesis by blast
qed

lemma consistent_le_trans:
  assumes "consistent cmp S" and "x \<in> S" and "y \<in> S" and "z \<in> S"
    and "\<not> negative (cmp y x)" and "\<not> negative (cmp z y)"
  shows "\<not> negative (cmp z x)"
  using consistent_cotrans [OF assms(1) assms(4) assms(2) assms(3)] assms(5,6) by blast

lemma tie_iff:
  assumes "consistent cmp S" and "x \<in> S" and "y \<in> S"
  shows "tie cmp x y \<longleftrightarrow> \<not> negative (cmp x y) \<and> \<not> negative (cmp y x)"
  using assms unfolding consistent_def tie_def by blast

lemma tie_coherent:
  assumes "consistent cmp S" and "x \<in> S" and "a \<in> S" and "y \<in> S"
    and "tie cmp x a" and "tie cmp x y"
  shows "\<not> negative (cmp a y)"
proof
  assume n: "negative (cmp a y)"
  have xa: "\<not> negative (cmp a x)" using assms(5) tie_iff [OF assms(1) assms(2) assms(3)] by blast
  have xy: "\<not> negative (cmp x y)" using assms(6) tie_iff [OF assms(1) assms(2) assms(4)] by blast
  show False using consistent_cotrans [OF assms(1) assms(3) assms(4) assms(2) n] xa xy by blast
qed

text \<open>The run is sorted, and finding it keeps the order of ties.\<close>

lemma run_more_successively:
  "run_more cmp d p cs = (r, l) \<Longrightarrow>
   successively (\<lambda>a b. if d then negative (cmp b a) else \<not> negative (cmp b a)) (p # r)"
proof (induction cs arbitrary: p r l)
  case Nil
  then show ?case by simp
next
  case (Cons c cs)
  obtain r' l' where e: "run_more cmp d c cs = (r', l')" by (cases "run_more cmp d c cs")
  then have "successively (\<lambda>a b. if d then negative (cmp b a) else \<not> negative (cmp b a)) (c # r')"
    by (rule Cons.IH)
  then show ?case using Cons.prems e by (auto split: if_splits)
qed

lemma filter_at_most_one:
  assumes "sorted_wrt R xs" and "\<And>a b. a \<in> set xs \<Longrightarrow> b \<in> set xs \<Longrightarrow> P a \<Longrightarrow> P b \<Longrightarrow> \<not> R a b"
  shows "rev (filter P xs) = filter P xs"
  using assms
proof (induction xs)
  case Nil
  show ?case by simp
next
  case (Cons a xs)
  have ih: "rev (filter P xs) = filter P xs" using Cons by simp
  show ?case
  proof (cases "P a")
    case False
    then show ?thesis using ih by simp
  next
    case True
    have "\<not> P b" if "b \<in> set xs" for b
    proof
      assume "P b"
      have "R a b" using Cons.prems(1) that by simp
      moreover have "\<not> R a b" using Cons.prems(2) [of a b] that True \<open>P b\<close> by simp
      ultimately show False by blast
    qed
    then have "filter P xs = []" by (simp add: filter_empty_conv)
    then show ?thesis using True by simp
  qed
qed

lemma CountAndMakeRun_sorted_stable:
  assumes c: "consistent cmp S" and s: "set xs \<subseteq> S" and e: "CountAndMakeRun cmp xs = (run, rest)"
  shows "sorted_wrt (\<lambda>a b. \<not> negative (cmp b a)) run
         \<and> (\<forall>x\<in>S. filter (tie cmp x) run @ filter (tie cmp x) rest = filter (tie cmp x) xs)"
proof (cases xs)
  case Nil
  then show ?thesis using e by auto
next
  case (Cons a xs')
  show ?thesis
  proof (cases xs')
    case Nil
    then show ?thesis using e Cons by auto
  next
    case (Cons b cs)
    let ?d = "negative (cmp b a)"
    obtain r l where m: "run_more cmp ?d b cs = (r, l)" by (cases "run_more cmp ?d b cs")
    let ?raw = "a # b # r"
    have xs: "xs = ?raw @ l" using run_more_append [OF m] \<open>xs = a # xs'\<close> Cons by simp
    have raw_S: "set ?raw \<subseteq> S" using s xs by auto
    have succ: "successively (\<lambda>a b. if ?d then negative (cmp b a) else \<not> negative (cmp b a)) ?raw"
      using run_more_successively [OF m] by simp
    have rest: "rest = l" and run: "run = (if ?d then rev ?raw else ?raw)"
      using e m \<open>xs = a # xs'\<close> Cons by (auto simp add: Let_def)
    show ?thesis
    proof (cases ?d)
      case False
      then have "successively (\<lambda>a b. \<not> negative (cmp b a)) ?raw" using succ by simp
      moreover have "successively (\<lambda>a b. \<not> negative (cmp b a)) ?raw
                       \<longleftrightarrow> sorted_wrt (\<lambda>a b. \<not> negative (cmp b a)) ?raw"
      proof (rule successively_iff_sorted_wrt_strong)
        fix x y z
        assume "x \<in> set ?raw" "y \<in> set ?raw" "z \<in> set ?raw"
          and "\<not> negative (cmp y x)" "\<not> negative (cmp z y)"
        then show "\<not> negative (cmp z x)"
          using consistent_le_trans [OF c, of x y z] raw_S by blast
      qed
      ultimately have "sorted_wrt (\<lambda>a b. \<not> negative (cmp b a)) ?raw" by blast
      then show ?thesis using False run rest xs by simp
    next
      case True
      then have "successively (\<lambda>a b. negative (cmp b a)) ?raw" using succ by simp
      moreover have "successively (\<lambda>a b. negative (cmp b a)) ?raw
                       \<longleftrightarrow> sorted_wrt (\<lambda>a b. negative (cmp b a)) ?raw"
      proof (rule successively_iff_sorted_wrt_strong)
        fix x y z
        assume "x \<in> set ?raw" "y \<in> set ?raw" "z \<in> set ?raw"
          and "negative (cmp y x)" "negative (cmp z y)"
        then show "negative (cmp z x)"
          using consistent_trans [OF c, of z y x] raw_S by blast
      qed
      ultimately have desc: "sorted_wrt (\<lambda>a b. negative (cmp b a)) ?raw" by blast
      have "sorted_wrt (\<lambda>a b. \<not> negative (cmp a b)) ?raw"
      proof (rule sorted_wrt_mono_rel [OF _ desc])
        fix x y
        assume "x \<in> set ?raw" "y \<in> set ?raw" "negative (cmp y x)"
        then show "\<not> negative (cmp x y)"
          using consistent_asym [OF c, of y x] raw_S by blast
      qed
      then have sorted: "sorted_wrt (\<lambda>a b. \<not> negative (cmp b a)) (rev ?raw)"
        by (simp only: sorted_wrt_rev)
      have stable: "filter (tie cmp x) (rev ?raw) = filter (tie cmp x) ?raw" if x: "x \<in> S" for x
      proof -
        have "rev (filter (tie cmp x) ?raw) = filter (tie cmp x) ?raw"
        proof (rule filter_at_most_one [OF desc])
          fix u v
          assume "u \<in> set ?raw" "v \<in> set ?raw" "tie cmp x u" "tie cmp x v"
          then show "\<not> negative (cmp v u)"
            using tie_coherent [OF c x, of v u] raw_S by blast
        qed
        then show ?thesis by (simp only: rev_filter)
      qed
      show ?thesis using True run rest xs sorted stable by simp
    qed
  qed
qed

text \<open>The binary search finds the place after the elements the pivot does not go before.\<close>

lemma binary_search_place:
  "consistent cmp S \<Longrightarrow> p \<in> S \<Longrightarrow> set ys \<subseteq> S
    \<Longrightarrow> sorted_wrt (\<lambda>a b. \<not> negative (cmp b a)) ys
    \<Longrightarrow> left \<le> right \<Longrightarrow> right \<le> length ys
    \<Longrightarrow> (\<forall>i<left. \<not> negative (cmp p (ys ! i)))
    \<Longrightarrow> (\<forall>i. right \<le> i \<and> i < length ys \<longrightarrow> negative (cmp p (ys ! i)))
    \<Longrightarrow> binary_search cmp p ys left right \<le> length ys
        \<and> (\<forall>i<binary_search cmp p ys left right. \<not> negative (cmp p (ys ! i)))
        \<and> (\<forall>i. binary_search cmp p ys left right \<le> i \<and> i < length ys \<longrightarrow> negative (cmp p (ys ! i)))"
proof (induction cmp p ys left right rule: binary_search.induct)
  case (1 cmp pivot ys left right)
  note c = "1.prems"(1) and p = "1.prems"(2) and ys = "1.prems"(3)
  show ?case
  proof (cases "left < right")
    case False
    then have "binary_search cmp pivot ys left right = left" by (simp add: binary_search.simps)
    moreover have "left = right" using False "1.prems" by simp
    ultimately show ?thesis using "1.prems" by simp
  next
    case True
    let ?mid = "left + (right - left) div 2"
    have mid: "left \<le> ?mid" "?mid < right" using True by auto
    then have midlen: "?mid < length ys" using "1.prems" by simp
    have inS: "ys ! i \<in> S" if "i < length ys" for i using ys that by (meson nth_mem subsetD)
    have nth_le: "\<not> negative (cmp (ys ! j) (ys ! i))" if "i < j" "j < length ys" for i j
      using "1.prems"(4) that by (simp add: sorted_wrt_iff_nth_less)
    show ?thesis
    proof (cases "negative (cmp pivot (ys ! ?mid))")
      case neg: True
      have eq: "binary_search cmp pivot ys left right = binary_search cmp pivot ys left ?mid"
        using True neg by (subst binary_search.simps) (simp add: Let_def)
      have hi: "\<forall>i. ?mid \<le> i \<and> i < length ys \<longrightarrow> negative (cmp pivot (ys ! i))"
      proof (intro allI impI)
        fix i assume i: "?mid \<le> i \<and> i < length ys"
        show "negative (cmp pivot (ys ! i))"
        proof (cases "i = ?mid")
          case True
          then show ?thesis using neg by simp
        next
          case False
          then have "\<not> negative (cmp (ys ! i) (ys ! ?mid))" using nth_le [of ?mid i] i by simp
          then show ?thesis
            using consistent_cotrans [OF c p inS [OF midlen] inS [of i] neg] i by blast
        qed
      qed
      have "left \<le> ?mid" "?mid \<le> length ys" using mid midlen by simp_all
      then show ?thesis
        unfolding eq using "1.IH"(1) [OF True refl neg c p ys "1.prems"(4) _ _ "1.prems"(7) hi]
        by blast
    next
      case nneg: False
      have eq: "binary_search cmp pivot ys left right = binary_search cmp pivot ys (?mid + 1) right"
        using True nneg by (subst binary_search.simps) (simp add: Let_def)
      have lo: "\<forall>i<?mid + 1. \<not> negative (cmp pivot (ys ! i))"
      proof (intro allI impI)
        fix i assume i: "i < ?mid + 1"
        show "\<not> negative (cmp pivot (ys ! i))"
        proof (cases "i = ?mid")
          case True
          then show ?thesis using nneg by simp
        next
          case False
          then have il: "i < ?mid" using i by simp
          then have ilen: "i < length ys" using midlen by simp
          have "\<not> negative (cmp (ys ! ?mid) (ys ! i))" using nth_le [of i ?mid] il midlen by simp
          then show ?thesis
            using consistent_cotrans [OF c p inS [OF ilen] inS [OF midlen]] nneg by blast
        qed
      qed
      have "?mid + 1 \<le> right" using mid by simp
      then show ?thesis
        unfolding eq using "1.IH"(2) [OF True refl nneg c p ys "1.prems"(4) _ "1.prems"(6) lo "1.prems"(8)]
        by blast
    qed
  qed
qed

lemma binary_insert_sorted_stable:
  assumes c: "consistent cmp S" and p: "p \<in> S" and ys: "set ys \<subseteq> S"
    and srt: "sorted_wrt (\<lambda>a b. \<not> negative (cmp b a)) ys"
  shows "sorted_wrt (\<lambda>a b. \<not> negative (cmp b a)) (binary_insert cmp ys p)
         \<and> (\<forall>x\<in>S. filter (tie cmp x) (binary_insert cmp ys p)
                      = filter (tie cmp x) ys @ filter (tie cmp x) [p])"
proof -
  let ?k = "binary_search cmp p ys 0 (length ys)"
  have place: "?k \<le> length ys \<and> (\<forall>i<?k. \<not> negative (cmp p (ys ! i)))
               \<and> (\<forall>i. ?k \<le> i \<and> i < length ys \<longrightarrow> negative (cmp p (ys ! i)))"
    by (rule binary_search_place [OF c p ys srt]) auto
  have ins: "binary_insert cmp ys p = take ?k ys @ [p] @ drop ?k ys"
    by (simp add: binary_insert_def Let_def)
  have before: "\<not> negative (cmp p a)" if m: "a \<in> set (take ?k ys)" for a
  proof -
    obtain i where "i < length (take ?k ys)" "take ?k ys ! i = a"
      using m unfolding in_set_conv_nth by blast
    then have "i < ?k" "ys ! i = a" by simp_all
    then show ?thesis using place by blast
  qed
  have after: "negative (cmp p b)" if m: "b \<in> set (drop ?k ys)" for b
  proof -
    obtain i where i: "i < length (drop ?k ys)" "drop ?k ys ! i = b"
      using m unfolding in_set_conv_nth by blast
    then have "?k + i < length ys" "ys ! (?k + i) = b" using place by simp_all
    then show ?thesis using place by (metis le_add1)
  qed
  have inS: "b \<in> S" if "b \<in> set (drop ?k ys)" for b
    using that ys by (meson in_set_dropD subsetD)
  have "sorted_wrt (\<lambda>a b. \<not> negative (cmp b a)) (take ?k ys @ drop ?k ys)"
    using srt by simp
  then have split: "sorted_wrt (\<lambda>a b. \<not> negative (cmp b a)) (take ?k ys)"
    "sorted_wrt (\<lambda>a b. \<not> negative (cmp b a)) (drop ?k ys)"
    "\<forall>u\<in>set (take ?k ys). \<forall>v\<in>set (drop ?k ys). \<not> negative (cmp v u)"
    unfolding sorted_wrt_append by blast+
  have sorted: "sorted_wrt (\<lambda>a b. \<not> negative (cmp b a)) (take ?k ys @ [p] @ drop ?k ys)"
  proof -
    have "\<not> negative (cmp b p)" if "b \<in> set (drop ?k ys)" for b
      using consistent_asym [OF c p inS [OF that] after [OF that]] .
    then show ?thesis using split before by (auto simp add: sorted_wrt_append)
  qed
  have stable: "filter (tie cmp x) (take ?k ys @ [p] @ drop ?k ys)
                  = filter (tie cmp x) ys @ filter (tie cmp x) [p]" if x: "x \<in> S" for x
  proof (cases "tie cmp x p")
    case False
    have "filter (tie cmp x) (take ?k ys) @ filter (tie cmp x) (drop ?k ys) = filter (tie cmp x) ys"
      by (metis append_take_drop_id filter_append)
    then show ?thesis using False by simp
  next
    case True
    have "\<not> tie cmp x b" if b: "b \<in> set (drop ?k ys)" for b
    proof
      assume "tie cmp x b"
      then have "\<not> negative (cmp p b)" using tie_coherent [OF c x p inS [OF b] True] by blast
      then show False using after [OF b] by blast
    qed
    then have e: "filter (tie cmp x) (drop ?k ys) = []" by (simp add: filter_empty_conv)
    have "filter (tie cmp x) (take ?k ys) @ filter (tie cmp x) (drop ?k ys) = filter (tie cmp x) ys"
      by (metis append_take_drop_id filter_append)
    then show ?thesis using True e by simp
  qed
  show ?thesis unfolding ins using sorted stable by blast
qed

lemma set_binary_insert: "set (binary_insert cmp ys p) = insert p (set ys)"
  using mset_binary_insert [of cmp ys p] by (metis set_mset_add_mset_insert set_mset_mset)

lemma BinaryInsertionSort_stable:
  assumes c: "consistent cmp S" and x: "x \<in> S"
  shows "set run \<subseteq> S \<Longrightarrow> set rest \<subseteq> S
    \<Longrightarrow> sorted_wrt (\<lambda>a b. \<not> negative (cmp b a)) run
    \<Longrightarrow> filter (tie cmp x) (BinaryInsertionSort cmp run rest)
          = filter (tie cmp x) run @ filter (tie cmp x) rest"
proof (induction rest arbitrary: run)
  case Nil
  show ?case by (simp add: BinaryInsertionSort_def)
next
  case (Cons p rest)
  have p: "p \<in> S" and rest: "set rest \<subseteq> S" using Cons.prems(2) by simp_all
  note b = binary_insert_sorted_stable [OF c p Cons.prems(1) Cons.prems(3)]
  have s: "set (binary_insert cmp run p) \<subseteq> S" using p Cons.prems(1) by (simp add: set_binary_insert)
  have "filter (tie cmp x) (BinaryInsertionSort cmp (binary_insert cmp run p) rest)
          = filter (tie cmp x) (binary_insert cmp run p) @ filter (tie cmp x) rest"
    using Cons.IH [OF s rest] b by blast
  moreover have "filter (tie cmp x) (binary_insert cmp run p)
                   = filter (tie cmp x) run @ filter (tie cmp x) [p]"
    using b x by blast
  moreover have "BinaryInsertionSort cmp run (p # rest)
                   = BinaryInsertionSort cmp (binary_insert cmp run p) rest"
    by (simp add: BinaryInsertionSort_def)
  ultimately show ?case by simp
qed

lemma filter_tie_sort_by:
  assumes c: "consistent cmp S" and x: "x \<in> S" and xs: "set xs \<subseteq> S"
  shows "filter (tie cmp x) (sort_by cmp xs) = filter (tie cmp x) xs"
proof (cases "length xs < 2")
  case True
  then show ?thesis by (simp add: sort_by_def)
next
  case False
  obtain run rest where e: "CountAndMakeRun cmp xs = (run, rest)" by (cases "CountAndMakeRun cmp xs")
  note r = CountAndMakeRun_sorted_stable [OF c xs e]
  have "set_mset (mset run + mset rest) = set xs" using CountAndMakeRun_mset [OF e] by simp
  then have sub: "set run \<subseteq> S" "set rest \<subseteq> S" using xs by auto
  have "filter (tie cmp x) (BinaryInsertionSort cmp run rest)
          = filter (tie cmp x) run @ filter (tie cmp x) rest"
    using BinaryInsertionSort_stable [OF c x sub] r by blast
  then show ?thesis using False e r x by (simp add: sort_by_def)
qed

text \<open>
  The comparator of the table is consistent when the sort field is a number and no value
  is NaN, and when it is a string and the host's collation is antisymmetric and puts
  every third string after the first or before the second of two ordered ones.
\<close>

lemma positive_compare_number:
  assumes "is_number_field f"
  shows "positive (compare_tx h f d a b) \<longleftrightarrow> negative (compare_tx h f d b a)"
  using assms
  by (cases "number_value f a"; cases "number_value f b"; cases d)
     (simp_all add: compare_tx_def multiplier_def)

lemma number_cotrans_asc:
  assumes "a \<noteq> NaN" and "b \<noteq> NaN" and "c \<noteq> NaN"
    and "negative (num_mul (num_sub a b) (Fin 1))"
  shows "negative (num_mul (num_sub a c) (Fin 1)) \<or> negative (num_mul (num_sub c b) (Fin 1))"
  using assms by (cases a; cases b; cases c) auto

lemma number_cotrans_desc:
  assumes "a \<noteq> NaN" and "b \<noteq> NaN" and "c \<noteq> NaN"
    and "negative (num_mul (num_sub a b) (Fin (- 1)))"
  shows "negative (num_mul (num_sub a c) (Fin (- 1))) \<or> negative (num_mul (num_sub c b) (Fin (- 1)))"
  using assms by (cases a; cases b; cases c) auto

lemma compare_number_consistent:
  assumes f: "is_number_field f" and n: "\<forall>tx\<in>S. number_value f tx \<noteq> NaN"
  shows "consistent (compare_tx h f d) S"
  unfolding consistent_def
proof (intro conjI ballI impI)
  fix x y assume "x \<in> S" "y \<in> S"
  show "positive (compare_tx h f d x y) \<longleftrightarrow> negative (compare_tx h f d y x)"
    by (rule positive_compare_number [OF f])
next
  fix x y z assume "x \<in> S" "y \<in> S" "z \<in> S" and neg: "negative (compare_tx h f d x y)"
  have nx: "number_value f x \<noteq> NaN" and ny: "number_value f y \<noteq> NaN"
    and nz: "number_value f z \<noteq> NaN"
    using n \<open>x \<in> S\<close> \<open>y \<in> S\<close> \<open>z \<in> S\<close> by blast+
  show "negative (compare_tx h f d x z) \<or> negative (compare_tx h f d z y)"
  proof (cases d)
    case Asc
    then show ?thesis
      using number_cotrans_asc [OF nx ny nz] neg f by (simp add: compare_tx_def multiplier_def)
  next
    case Desc
    then show ?thesis
      using number_cotrans_desc [OF nx ny nz] neg f by (simp add: compare_tx_def multiplier_def)
  qed
qed

lemma sgn_flip:
  fixes i j :: int
  assumes "sgn j = - sgn i"
  shows "(0 < j \<longleftrightarrow> i < 0) \<and> (j < 0 \<longleftrightarrow> 0 < i)"
  using assms by (cases "i < 0"; cases "i = 0"; cases "j < 0"; cases "j = 0") (simp_all add: sgn_if)

lemma sign_compare_string:
  assumes "\<not> is_number_field f"
  shows "positive (compare_tx h f Asc a b) \<longleftrightarrow> 0 < localeCompare h (String_value f a) (String_value f b)"
    and "positive (compare_tx h f Desc a b) \<longleftrightarrow> localeCompare h (String_value f a) (String_value f b) < 0"
    and "negative (compare_tx h f Asc a b) \<longleftrightarrow> localeCompare h (String_value f a) (String_value f b) < 0"
    and "negative (compare_tx h f Desc a b) \<longleftrightarrow> 0 < localeCompare h (String_value f a) (String_value f b)"
  using assms by (simp_all add: compare_tx_def multiplier_def)

lemma compare_string_consistent:
  assumes f: "\<not> is_number_field f"
    and a: "\<forall>s t. sgn (localeCompare h t s) = - sgn (localeCompare h s t)"
    and t: "\<forall>s t u. localeCompare h s t < 0 \<longrightarrow> localeCompare h s u < 0 \<or> localeCompare h u t < 0"
  shows "consistent (compare_tx h f d) S"
  unfolding consistent_def
proof (intro conjI ballI impI)
  fix x y
  let ?i = "localeCompare h (String_value f x) (String_value f y)"
  let ?j = "localeCompare h (String_value f y) (String_value f x)"
  have "sgn ?j = - sgn ?i" using a by blast
  then have fl: "(0 < ?j \<longleftrightarrow> ?i < 0) \<and> (?j < 0 \<longleftrightarrow> 0 < ?i)" by (rule sgn_flip)
  show "positive (compare_tx h f d x y) \<longleftrightarrow> negative (compare_tx h f d y x)"
  proof (cases d)
    case Asc
    show ?thesis unfolding Asc sign_compare_string [OF f] using fl by blast
  next
    case Desc
    show ?thesis unfolding Desc sign_compare_string [OF f] using fl by blast
  qed
next
  fix x y z assume neg: "negative (compare_tx h f d x y)"
  let ?s = "String_value f"
  have fl: "0 < localeCompare h v u \<longleftrightarrow> localeCompare h u v < 0" for u v
  proof -
    have "sgn (localeCompare h v u) = - sgn (localeCompare h u v)" using a by blast
    then show ?thesis using sgn_flip [of "localeCompare h v u" "localeCompare h u v"] by blast
  qed
  show "negative (compare_tx h f d x z) \<or> negative (compare_tx h f d z y)"
  proof (cases d)
    case Asc
    have "localeCompare h (?s x) (?s y) < 0" using neg unfolding Asc sign_compare_string [OF f] .
    then have "localeCompare h (?s x) (?s z) < 0 \<or> localeCompare h (?s z) (?s y) < 0"
      using t by blast
    then show ?thesis unfolding Asc sign_compare_string [OF f] .
  next
    case Desc
    have "0 < localeCompare h (?s x) (?s y)" using neg unfolding Desc sign_compare_string [OF f] .
    then have "localeCompare h (?s y) (?s x) < 0" using fl by blast
    then have "localeCompare h (?s y) (?s z) < 0 \<or> localeCompare h (?s z) (?s x) < 0"
      using t by blast
    then have "0 < localeCompare h (?s x) (?s z) \<or> 0 < localeCompare h (?s z) (?s y)"
      using fl by blast
    then show ?thesis unfolding Desc sign_compare_string [OF f] .
  qed
qed

text \<open>
  A store with a NaN amount comes about by uploading a row whose amount is not a number.
\<close>

lemma tid_numbers:
  "txn_id 0 = ''TXN-000001''" "txn_id (Suc 0) = ''TXN-000002''"
  "txn_id (Suc (Suc 0)) = ''TXN-000003''" "txn_id (Suc (Suc (Suc 0))) = ''TXN-000004''"
  "txn_id (Suc (Suc (Suc (Suc 0)))) = ''TXN-000005''"
  by (simp_all add: txn_id_def padStart_def String_nat.simps digit_char_def numeral_eq_Suc)

lemma predict_row_steady:
  "predict_row steady_host i (row_amount a) w
     = (tx_medium\<lparr>tid := txn_id i, amount := parseFloat a\<rparr>, w\<lparr>draws := draws w + 4\<rparr>)" if "a \<noteq> []"
  using that
  by (simp add: predict_row_def row_amount_def steady_host_def sample_host_def Math_random_def
      random_level_def random_slice_def tx_medium_def)

lemma store_with_nan_reachable:
  "suspiciousTransactions (dashboard (handleDataUpload steady_host rows_nan empty_page))
     = [tx_T0, tx_T1, tx_T2, tx_T3, tx_T4]"
  by (simp add: handleDataUpload_store mockPredict_def rows_nan_def predict_row_steady tid_numbers
      tx_T_defs parseFloat_defs)

text \<open>
  C7, as claimed, fails in its tie order: with the amounts 3, 1, NaN, 2 and 0 in the
  store (\<open>store_with_nan_reachable\<close>), sorted by amount in ascending order, the
  comparator ties the transaction with NaN with every other one, and the result has it
  last, after transactions that follow it in the input.
\<close>

theorem query_tie_order_counterexample:
  "snd (filteredAndSortedTransactions sample_host By_amount Asc ''all'' [] 0 heap_nan)
     ! fst (filteredAndSortedTransactions sample_host By_amount Asc ''all'' [] 0 heap_nan)
     = [tx_T4, tx_T1, tx_T3, tx_T0, tx_T2]
   \<and> filter (matches [] ''all'') (heap_nan ! 0) = [tx_T0, tx_T1, tx_T2, tx_T3, tx_T4]
   \<and> tie (compare_tx sample_host By_amount Asc) tx_T2 tx_T3
   \<and> filter (tie (compare_tx sample_host By_amount Asc) tx_T2)
        (snd (filteredAndSortedTransactions sample_host By_amount Asc ''all'' [] 0 heap_nan)
          ! fst (filteredAndSortedTransactions sample_host By_amount Asc ''all'' [] 0 heap_nan))
       \<noteq> filter (tie (compare_tx sample_host By_amount Asc) tx_T2)
           (filter (matches [] ''all'') (heap_nan ! 0))"
proof -
  have l: "(0::nat) < length heap_nan" by (simp add: heap_nan_def)
  have f: "filter (matches [] ''all'') (heap_nan ! 0) = [tx_T0, tx_T1, tx_T2, tx_T3, tx_T4]"
    by (simp add: heap_nan_def matches_def case_defs tx_T_defs)
  have s: "sort_by (compare_tx sample_host By_amount Asc) [tx_T0, tx_T1, tx_T2, tx_T3, tx_T4]
             = [tx_T4, tx_T1, tx_T3, tx_T0, tx_T2]"
    by (simp add: sort_by_defs compare_tx_def multiplier_def tx_T_defs)
  have out: "snd (filteredAndSortedTransactions sample_host By_amount Asc ''all'' [] 0 heap_nan)
     ! fst (filteredAndSortedTransactions sample_host By_amount Asc ''all'' [] 0 heap_nan)
     = [tx_T4, tx_T1, tx_T3, tx_T0, tx_T2]"
    by (simp add: query_value [OF l] f s)
  have t: "tie (compare_tx sample_host By_amount Asc) tx_T2 tx_T3"
    by (simp add: tie_def compare_tx_def tx_T_defs)
  have ties: "tie (compare_tx sample_host By_amount Asc) tx_T2 tx_T0"
    "tie (compare_tx sample_host By_amount Asc) tx_T2 tx_T4"
    by (simp_all add: tie_def compare_tx_def tx_T_defs)
  have d: "tx_T4 \<noteq> tx_T0" by (simp add: tx_T_defs)
  have "filter (tie (compare_tx sample_host By_amount Asc) tx_T2) [tx_T4, tx_T1, tx_T3, tx_T0, tx_T2]
          \<noteq> filter (tie (compare_tx sample_host By_amount Asc) tx_T2) [tx_T0, tx_T1, tx_T2, tx_T3, tx_T4]"
    using ties d by simp
  then show ?thesis using f t unfolding out by simp
qed

text \<open>
  C7, amended. The query leaves every array that existed before the call as it was, the
  input among them: its result is a new array. Called again with the same arguments, on
  the heap the first call left, it returns an array with the same transactions in the
  same order. Where the comparator is consistent on the input, the transactions that tie
  with a given one are in the result in the order they have in the input.
\<close>

theorem query_pure_and_stable:
  assumes "transactions < length hp"
  shows "(\<forall>a<length hp.
            snd (filteredAndSortedTransactions h sf sd fr st transactions hp) ! a = hp ! a)
         \<and> fst (filteredAndSortedTransactions h sf sd fr st transactions hp) = length hp
         \<and> snd (filteredAndSortedTransactions h sf sd fr st transactions
                  (snd (filteredAndSortedTransactions h sf sd fr st transactions hp)))
             ! fst (filteredAndSortedTransactions h sf sd fr st transactions
                  (snd (filteredAndSortedTransactions h sf sd fr st transactions hp)))
           = snd (filteredAndSortedTransactions h sf sd fr st transactions hp)
             ! fst (filteredAndSortedTransactions h sf sd fr st transactions hp)
         \<and> (consistent (compare_tx h sf sd) (set (hp ! transactions)) \<longrightarrow>
              (\<forall>x\<in>set (hp ! transactions).
                 filter (tie (compare_tx h sf sd) x)
                   (snd (filteredAndSortedTransactions h sf sd fr st transactions hp)
                      ! fst (filteredAndSortedTransactions h sf sd fr st transactions hp))
                 = filter (tie (compare_tx h sf sd) x) (filter (matches st fr) (hp ! transactions))))"
proof -
  let ?out = "sort_by (compare_tx h sf sd) (filter (matches st fr) (hp ! transactions))"
  have q: "filteredAndSortedTransactions h sf sd fr st transactions hp = (length hp, hp @ [?out])"
    by (rule query_value [OF assms])
  have l: "transactions < length (hp @ [?out])" using assms by simp
  have q2: "filteredAndSortedTransactions h sf sd fr st transactions (hp @ [?out])
              = (length (hp @ [?out]), (hp @ [?out]) @ [?out])"
    using query_value [OF l, of h sf sd fr st] assms by (simp add: nth_append)
  have frame: "\<forall>a<length hp. (hp @ [?out]) ! a = hp ! a" by (simp add: nth_append)
  have again: "((hp @ [?out]) @ [?out]) ! length (hp @ [?out]) = (hp @ [?out]) ! length hp"
    by (simp add: nth_append)
  have stable: "filter (tie (compare_tx h sf sd) x) ?out
                  = filter (tie (compare_tx h sf sd) x) (filter (matches st fr) (hp ! transactions))"
    if c: "consistent (compare_tx h sf sd) (set (hp ! transactions))"
      and x: "x \<in> set (hp ! transactions)" for x
    by (rule filter_tie_sort_by [OF c x]) simp
  show ?thesis
    using frame again stable by (simp add: q q2)
qed

theorem query_pure_and_stable_witness:
  "(0::nat) < length heap_three
   \<and> consistent (compare_tx sample_host By_amount Desc) (set (heap_three ! 0))
   \<and> tx_A_B_low \<in> set (heap_three ! 0)
   \<and> snd (filteredAndSortedTransactions sample_host By_amount Desc ''all'' [] 0 heap_three) ! 0
       = [tx_A_B_low, tx_medium, tx_A_B]
   \<and> snd (filteredAndSortedTransactions sample_host By_amount Desc ''all'' [] 0 heap_three)
        ! fst (filteredAndSortedTransactions sample_host By_amount Desc ''all'' [] 0 heap_three)
       = [tx_A_B, tx_A_B_low, tx_medium]
   \<and> filter (tie (compare_tx sample_host By_amount Desc) tx_A_B_low)
        (snd (filteredAndSortedTransactions sample_host By_amount Desc ''all'' [] 0 heap_three)
          ! fst (filteredAndSortedTransactions sample_host By_amount Desc ''all'' [] 0 heap_three))
       = [tx_A_B_low, tx_medium]"
proof -
  let ?q = "filteredAndSortedTransactions sample_host By_amount Desc ''all'' [] 0 heap_three"
  let ?cmp = "compare_tx sample_host By_amount Desc"
  have l: "(0::nat) < length heap_three" by (simp add: heap_three_def)
  have c: "consistent ?cmp (set (heap_three ! 0))"
    by (rule compare_number_consistent) (simp_all add: heap_three_def sample_txs)
  have m: "tx_A_B_low \<in> set (heap_three ! 0)" by (simp add: heap_three_def)
  note t = query_pure_and_stable [OF l, of sample_host By_amount Desc "''all''" "[]"]
  have frame: "snd ?q ! 0 = heap_three ! 0" using t l by blast
  have stable: "filter (tie ?cmp tx_A_B_low) (snd ?q ! fst ?q)
                  = filter (tie ?cmp tx_A_B_low) (filter (matches [] ''all'') (heap_three ! 0))"
    using t c m by blast
  have f: "filter (matches [] ''all'') (heap_three ! 0) = [tx_A_B_low, tx_medium, tx_A_B]"
    by (simp add: heap_three_def matches_def case_defs sample_txs)
  have ties: "filter (tie ?cmp tx_A_B_low) [tx_A_B_low, tx_medium, tx_A_B] = [tx_A_B_low, tx_medium]"
    by (simp add: tie_def compare_tx_def multiplier_def sample_txs)
  have out: "snd ?q ! fst ?q = [tx_A_B, tx_A_B_low, tx_medium]"
    by (simp add: query_value [OF l] f sort_by_defs compare_tx_def multiplier_def sample_txs)
  show ?thesis using l c m frame stable f ties out by (simp add: heap_three_def)
qed






end
